theory Spec2Isabelle
  imports Main
begin

section \<open>Strings and numbers of the source language\<close>

text \<open>
  A TypeScript string is modelled as a \<^typ>\<open>string\<close>: a list of code units, so that
  \<open>length\<close> is the source's \<open>.length\<close>. A \<open>number\<close> that counts characters or
  tokens is modelled as an \<^typ>\<open>int\<close>; the source's doubles agree with the integers
  on every value of magnitude below \<open>2^53\<close>, which covers every string length.
\<close>

text \<open>The line feed, the double quote and the apostrophe.\<close>

definition nl :: string where
  "nl = [CHR 0x0A]"

definition dquote :: string where
  "dquote = [CHR 0x22]"

definition squote :: string where
  "squote = [CHR 0x27]"

text \<open>\<open>String.prototype.substring(start, end)\<close>: both indices are clamped to
  \<open>[0, length]\<close> and swapped when \<open>start > end\<close>.\<close>

definition substring :: "string \<Rightarrow> int \<Rightarrow> int \<Rightarrow> string" where
  "substring s start end =
     (let len = int (length s);
          finalStart = min (max start 0) len;
          finalEnd = min (max end 0) len;
          from = min finalStart finalEnd;
          to = max finalStart finalEnd
      in take (nat (to - from)) (drop (nat from) s))"

text \<open>\<open>substring(start)\<close> with the end omitted: the end is the length.\<close>

definition substring_from :: "string \<Rightarrow> int \<Rightarrow> string" where
  "substring_from s start = substring s start (int (length s))"

text \<open>A number inside a template literal: its decimal digits, with a sign.\<close>

fun show_nat :: "nat \<Rightarrow> string" where
  "show_nat n =
     (if n < 10 then [''0123456789'' ! n]
      else show_nat (n div 10) @ [''0123456789'' ! (n mod 10)])"

declare show_nat.simps [simp del]

definition show_int :: "int \<Rightarrow> string" where
  "show_int i = (if i < 0 then ''-'' @ show_nat (nat (- i)) else show_nat (nat i))"

text \<open>\<open>a || b\<close> on strings: the empty string is falsy. An absent (\<open>undefined\<close>) string is
  falsy too.\<close>

definition or_else :: "string \<Rightarrow> string \<Rightarrow> string" where
  "or_else a b = (if a = [] then b else a)"

definition or_else_opt :: "string option \<Rightarrow> string \<Rightarrow> string" where
  "or_else_opt a b = (case a of None \<Rightarrow> b | Some s \<Rightarrow> or_else s b)"

text \<open>\<open>startsWith\<close>.\<close>

fun startsWith :: "string \<Rightarrow> string \<Rightarrow> bool" where
  "startsWith s [] = True"
| "startsWith [] (p # ps) = False"
| "startsWith (c # cs) (p # ps) = (c = p \<and> startsWith cs ps)"

text \<open>\<open>indexOf\<close>: the first position at which the pattern occurs; \<open>None\<close> is the
  source's \<open>-1\<close>.\<close>

fun indexOf :: "string \<Rightarrow> string \<Rightarrow> nat option" where
  "indexOf [] p = (if p = [] then Some 0 else None)"
| "indexOf (c # cs) p =
     (if startsWith (c # cs) p then Some 0 else map_option Suc (indexOf cs p))"

definition string_includes :: "string \<Rightarrow> string \<Rightarrow> bool" where
  "string_includes s p = (indexOf s p \<noteq> None)"

text \<open>\<open>split\<close> with a string separator: the pieces between the successive leftmost
  occurrences of the separator; with the empty separator, the code units.\<close>

function split :: "string \<Rightarrow> string \<Rightarrow> string list" where
  "split s sep =
     (if sep = [] then map (\<lambda>c. [c]) s
      else case indexOf s sep of
             None \<Rightarrow> [s]
           | Some i \<Rightarrow> take i s # split (drop (i + length sep) s) sep)"
  by pat_completeness auto
termination
proof (relation "measure (\<lambda>(s, sep). length s)")
  show "wf (measure (\<lambda>(s, sep). length s))" by simp
next
  fix s sep :: string and i
  assume sep: "sep \<noteq> []" and found: "indexOf s sep = Some i"
  have starts: "startsWith t p \<Longrightarrow> length p \<le> length t" for t p
    by (induction t p rule: startsWith.induct) auto
  have "indexOf t sep = Some j \<Longrightarrow> j + length sep \<le> length t" for t j
  proof (induction t arbitrary: j)
    case Nil
    then show ?case by (simp split: if_splits)
  next
    case (Cons c cs)
    then show ?case
      using starts [of "c # cs" sep] by (auto split: if_splits)
  qed
  from this [OF found] sep
  show "((drop (i + length sep) s, sep), (s, sep)) \<in> measure (\<lambda>(s, sep). length s)"
    by (cases sep) auto
qed

declare split.simps [simp del]

text \<open>\<open>replace\<close> with a string pattern replaces the first occurrence only. The
  replacement text is a template: \<open>$$\<close> is a dollar sign, \<open>$&\<close> the matched text,
  \<open>$`\<close> the text before the match and \<open>$'\<close> the text after it; a string pattern has no
  capture groups, so every other \<open>$\<close> stands for itself.\<close>

fun getSubstitution :: "string \<Rightarrow> string \<Rightarrow> nat \<Rightarrow> string \<Rightarrow> string" where
  "getSubstitution m s pos [] = []"
| "getSubstitution m s pos [c] = [c]"
| "getSubstitution m s pos (c # d # r) =
     (if c = CHR ''$'' then
        (if d = CHR ''$'' then ''$'' @ getSubstitution m s pos r
         else if d = CHR ''&'' then m @ getSubstitution m s pos r
         else if d = CHR 0x60 then take pos s @ getSubstitution m s pos r
         else if d = CHR 0x27 then drop (pos + length m) s @ getSubstitution m s pos r
         else c # getSubstitution m s pos (d # r))
      else c # getSubstitution m s pos (d # r))"

definition replace :: "string \<Rightarrow> string \<Rightarrow> string \<Rightarrow> string" where
  "replace s pat rep =
     (case indexOf s pat of
        None \<Rightarrow> s
      | Some pos \<Rightarrow> take pos s @ getSubstitution pat s pos rep @ drop (pos + length pat) s)"

text \<open>\<open>Array.prototype.join\<close>.\<close>

fun join :: "string \<Rightarrow> string list \<Rightarrow> string" where
  "join sep [] = []"
| "join sep [x] = x"
| "join sep (x # y # ys) = x @ sep @ join sep (y # ys)"

text \<open>\<open>toUpperCase\<close>, on the letters of the ASCII alphabet.\<close>

definition toUpperCase :: "string \<Rightarrow> string" where
  "toUpperCase =
     map (\<lambda>c. case map_of (zip ''abcdefghijklmnopqrstuvwxyz'' ''ABCDEFGHIJKLMNOPQRSTUVWXYZ'') c of
                 None \<Rightarrow> c
               | Some u \<Rightarrow> u)"

section \<open>The output budgeter\<close>

text \<open>\<open>truncateOutput\<close> of tool-implementations.ts.\<close>

definition truncateOutput :: "string \<Rightarrow> int \<Rightarrow> string" where
  "truncateOutput text maxTokens =
     (let maxChars = maxTokens * 4 in
      if int (length text) \<le> maxChars then text
      else
        let keepChars = maxChars div 2 - 50;
            beginning = substring text 0 keepChars;
            end = substring_from text (int (length text) - keepChars)
        in beginning @ nl @ nl @ ''... [TRUNCATED - ''
             @ show_int (int (length text) - maxChars)
             @ '' chars removed] ...'' @ nl @ nl @ end)"

section \<open>The operating system\<close>

text \<open>
  A thrown value is a \<open>js_error\<close>: an \<open>Error\<close> with its message and, for a failed child
  process, the captured \<open>stdout\<close>, \<open>stderr\<close> and exit \<open>status\<close>. A computation that may
  throw returns \<open>js_error + 'a\<close>, with \<open>Inl\<close> the thrown value.
\<close>

record js_error =
  message :: string
  stdout :: "string option"
  stderr :: "string option"
  status :: "int option"

record exec_options =
  cwd :: "string option"
  timeout :: "int option"
  maxBuffer :: "int option"

text \<open>
  The file system and the shell are outside the program. Their operations are the fields
  of an \<open>os\<close> over a type \<open>'w\<close> of states of the world: reading operations leave the
  world as it is and may throw; writing operations and child processes return the new
  world, also when they throw.
\<close>

record 'w os =
  path_resolve :: "'w \<Rightarrow> string \<Rightarrow> js_error + string"
  path_dirname :: "string \<Rightarrow> string"
  path_join :: "string \<Rightarrow> string \<Rightarrow> string"
  path_relative :: "string \<Rightarrow> string \<Rightarrow> string"
  existsSync :: "'w \<Rightarrow> string \<Rightarrow> bool"
  readFileSync :: "'w \<Rightarrow> string \<Rightarrow> js_error + string"
  readdirSync :: "'w \<Rightarrow> string \<Rightarrow> js_error + string list"
  statSync_isDirectory :: "'w \<Rightarrow> string \<Rightarrow> js_error + bool"
  writeFileSync :: "'w \<Rightarrow> string \<Rightarrow> string \<Rightarrow> (js_error + unit) \<times> 'w"
  mkdirSync :: "'w \<Rightarrow> string \<Rightarrow> (js_error + unit) \<times> 'w"
  execSync :: "'w \<Rightarrow> string \<Rightarrow> exec_options \<Rightarrow> (js_error + string) \<times> 'w"

section \<open>The core tool executors\<close>

text \<open>\<open>readFile\<close> of tool-implementations.ts.\<close>

definition readFile :: "'w os \<Rightarrow> 'w \<Rightarrow> string \<Rightarrow> js_error + string" where
  "readFile os w filePath =
     (case (case path_resolve os w filePath of
              Inl err \<Rightarrow> Inl err
            | Inr absolutePath \<Rightarrow> readFileSync os w absolutePath) of
        Inr content \<Rightarrow> Inr content
      | Inl err \<Rightarrow> Inr (''Error reading file: '' @ message err))"

text \<open>\<open>listFiles\<close>: the inner function \<open>walk\<close> and its loop over the items of a
  directory; \<open>results\<close> is returned in the order of the pushes.\<close>

function walk :: "'w os \<Rightarrow> 'w \<Rightarrow> string \<Rightarrow> string \<Rightarrow> nat \<Rightarrow> js_error + string list"
  and walk_items ::
    "'w os \<Rightarrow> 'w \<Rightarrow> string \<Rightarrow> string \<Rightarrow> nat \<Rightarrow> string list \<Rightarrow> js_error + string list"
where
  "walk os w absolutePath dir depth =
     (if depth > 2 then Inr []
      else case readdirSync os w dir of
             Inl err \<Rightarrow> Inl err
           | Inr items \<Rightarrow> walk_items os w absolutePath dir depth items)"
| "walk_items os w absolutePath dir depth [] = Inr []"
| "walk_items os w absolutePath dir depth (item # items) =
     (if startsWith item ''.'' \<or> item = ''node_modules''
      then walk_items os w absolutePath dir depth items
      else
        let fullPath = path_join os dir item;
            relativePath = path_relative os absolutePath fullPath
        in case statSync_isDirectory os w fullPath of
             Inl err \<Rightarrow> Inl err
           | Inr isDirectory \<Rightarrow>
               if isDirectory then
                 (case walk os w absolutePath fullPath (depth + 1) of
                    Inl err \<Rightarrow> Inl err
                  | Inr below \<Rightarrow>
                      (case walk_items os w absolutePath dir depth items of
                         Inl err \<Rightarrow> Inl err
                       | Inr rest \<Rightarrow> Inr ((relativePath @ ''/'') # below @ rest)))
               else
                 (case walk_items os w absolutePath dir depth items of
                    Inl err \<Rightarrow> Inl err
                  | Inr rest \<Rightarrow> Inr (relativePath # rest)))"
  by pat_completeness auto
termination
  by (relation "measures
        [\<lambda>x. case x of
               Inl (os, w, a, d, depth) \<Rightarrow> (if depth > 2 then 0 else 2 * (3 - depth) + 2)
             | Inr (os, w, a, d, depth, items) \<Rightarrow> 2 * (3 - depth) + 1,
         \<lambda>x. case x of
               Inl (os, w, a, d, depth) \<Rightarrow> 0
             | Inr (os, w, a, d, depth, items) \<Rightarrow> length items]")
     auto

definition listFiles :: "'w os \<Rightarrow> 'w \<Rightarrow> string \<Rightarrow> js_error + string" where
  "listFiles os w dirPath =
     (case (case path_resolve os w dirPath of
              Inl err \<Rightarrow> Inl err
            | Inr absolutePath \<Rightarrow>
                (case walk os w absolutePath absolutePath 0 of
                   Inl err \<Rightarrow> Inl err
                 | Inr results \<Rightarrow> Inr (or_else (join nl results) ''No files found''))) of
        Inr listing \<Rightarrow> Inr listing
      | Inl err \<Rightarrow> Inr (''Error listing files: '' @ message err))"

text \<open>\<open>codeSearch\<close>: ripgrep first, grep when ripgrep throws. \<open>fileType\<close> is optional,
  and the empty string is falsy as an absent one is.\<close>

definition when_given :: "string option \<Rightarrow> (string \<Rightarrow> string list) \<Rightarrow> string list" where
  "when_given fileType f =
     (case fileType of None \<Rightarrow> [] | Some t \<Rightarrow> if t = [] then [] else f t)"

definition codeSearch ::
  "'w os \<Rightarrow> 'w \<Rightarrow> string \<Rightarrow> string \<Rightarrow> string option \<Rightarrow> bool \<Rightarrow> (js_error + string) \<times> 'w"
where
  "codeSearch os w pattern searchPath fileType caseSensitive =
     (let cmd = ''rg'';
          args = [''--line-number'', ''--no-heading'', ''--color=never'']
                 @ (if \<not> caseSensitive then [''-i''] else [])
                 @ when_given fileType (\<lambda>t. [''-t'', t])
                 @ [''--max-count=50'']
                 @ [''--'', pattern, searchPath];
          fullCmd = cmd @ '' '' @ join '' '' args;
          options = \<lparr>cwd = None, timeout = None, maxBuffer = Some (10 * 1024 * 1024)\<rparr>
      in case execSync os w fullCmd options of
           (Inr result, w1) \<Rightarrow> (Inr (or_else result ''No matches found''), w1)
         | (Inl _, w1) \<Rightarrow>
             let grepArgs = [''-r'', ''-n'', ''--include=*'']
                            @ (if \<not> caseSensitive then [''-i''] else [])
                            @ when_given fileType (\<lambda>t. [''--include=*.'' @ t]);
                 grepCmd = ''grep '' @ join '' '' grepArgs @ '' '' @ dquote @ pattern @ dquote
                           @ '' '' @ searchPath @ '' | head -50''
             in case execSync os w1 grepCmd options of
                  (Inr result, w2) \<Rightarrow> (Inr (or_else result ''No matches found''), w2)
                | (Inl err, w2) \<Rightarrow>
                    if status err = Some 1 then (Inr ''No matches found'', w2)
                    else (Inr (''Search error: '' @ message err), w2))"

text \<open>The two commands that \<open>codeSearch\<close> runs, ripgrep and then grep, as functions of its
  arguments.\<close>

definition rg_command :: "string \<Rightarrow> string \<Rightarrow> string option \<Rightarrow> bool \<Rightarrow> string" where
  "rg_command pattern searchPath fileType caseSensitive =
     ''rg '' @ join '' ''
       ([''--line-number'', ''--no-heading'', ''--color=never'']
        @ (if \<not> caseSensitive then [''-i''] else [])
        @ when_given fileType (\<lambda>t. [''-t'', t])
        @ [''--max-count=50'']
        @ [''--'', pattern, searchPath])"

definition grep_command :: "string \<Rightarrow> string \<Rightarrow> string option \<Rightarrow> bool \<Rightarrow> string" where
  "grep_command pattern searchPath fileType caseSensitive =
     ''grep '' @ join '' ''
       ([''-r'', ''-n'', ''--include=*'']
        @ (if \<not> caseSensitive then [''-i''] else [])
        @ when_given fileType (\<lambda>t. [''--include=*.'' @ t]))
     @ '' '' @ dquote @ pattern @ dquote @ '' '' @ searchPath @ '' | head -50''"

text \<open>\<open>editFile\<close>: the body of the \<open>try\<close> block, then the function with its
  \<open>catch\<close>.\<close>

definition editFile_try ::
  "'w os \<Rightarrow> 'w \<Rightarrow> string \<Rightarrow> string \<Rightarrow> string \<Rightarrow> (js_error + string) \<times> 'w"
where
  "editFile_try os w filePath oldStr newStr =
     (case path_resolve os w filePath of
        Inl err \<Rightarrow> (Inl err, w)
      | Inr absolutePath \<Rightarrow>
          if \<not> existsSync os w absolutePath then
            (if oldStr = [] then
               (let dir = path_dirname os absolutePath in
                case mkdirSync os w dir of
                  (Inl err, w1) \<Rightarrow> (Inl err, w1)
                | (Inr _, w1) \<Rightarrow>
                    (case writeFileSync os w1 absolutePath newStr of
                       (Inl err, w2) \<Rightarrow> (Inl err, w2)
                     | (Inr _, w2) \<Rightarrow> (Inr (''Created new file: '' @ filePath), w2)))
             else (Inr (''Error: File not found: '' @ filePath), w))
          else
            (case readFileSync os w absolutePath of
               Inl err \<Rightarrow> (Inl err, w)
             | Inr content \<Rightarrow>
                 if oldStr = [] then
                   (case writeFileSync os w absolutePath newStr of
                      (Inl err, w1) \<Rightarrow> (Inl err, w1)
                    | (Inr _, w1) \<Rightarrow> (Inr (''Replaced entire file: '' @ filePath), w1))
                 else if \<not> string_includes content oldStr then
                   (Inr (''Error: Could not find the specified text in '' @ filePath
                         @ ''. Make sure the old_str matches exactly.''), w)
                 else
                   (let matches = int (length (split content oldStr)) - 1 in
                    if matches > 1 then
                      (Inr (''Error: Found '' @ show_int matches
                            @ '' matches for the specified text. Please use a more specific string to avoid ambiguity.''),
                       w)
                    else
                      (let newContent = replace content oldStr newStr in
                       case writeFileSync os w absolutePath newContent of
                         (Inl err, w1) \<Rightarrow> (Inl err, w1)
                       | (Inr _, w1) \<Rightarrow> (Inr (''Successfully edited '' @ filePath), w1)))))"

definition editFile ::
  "'w os \<Rightarrow> 'w \<Rightarrow> string \<Rightarrow> string \<Rightarrow> string \<Rightarrow> (js_error + string) \<times> 'w"
where
  "editFile os w filePath oldStr newStr =
     (case editFile_try os w filePath oldStr newStr of
        (Inr answer, w') \<Rightarrow> (Inr answer, w')
      | (Inl err, w') \<Rightarrow> (Inr (''Error editing file: '' @ message err), w'))"

text \<open>\<open>bash\<close>.\<close>

definition bash :: "'w os \<Rightarrow> 'w \<Rightarrow> string \<Rightarrow> int \<Rightarrow> (js_error + string) \<times> 'w" where
  "bash os w command timeout_ms =
     (case execSync os w command
             \<lparr>cwd = None, timeout = Some timeout_ms, maxBuffer = Some (10 * 1024 * 1024)\<rparr> of
        (Inr result, w') \<Rightarrow> (Inr (or_else result ''Command completed (no output)''), w')
      | (Inl err, w') \<Rightarrow>
          let output = or_else_opt (stdout err) [];
              stderr_text = or_else_opt (stderr err) []
          in (Inr (or_else
                     (output @ (if stderr_text \<noteq> [] then nl @ ''STDERR: '' @ stderr_text else []))
                     (''Error: '' @ message err)),
              w'))"

section \<open>The feedback loops\<close>

text \<open>types.ts; \<open>output_text\<close> is the field \<open>output\<close>.\<close>

record FeedbackResult =
  passed :: bool
  output_text :: string
  error :: "string option"
  skipped :: "bool option"

record FeedbackLoopResults =
  typescript :: "FeedbackResult option"
  tests :: "FeedbackResult option"
  lint :: "FeedbackResult option"
  allPassed :: bool
  summary :: string

text \<open>The three \<open>try\<close> blocks of \<open>runFeedbackLoops\<close>, in the order of the source.\<close>

definition run_typescript :: "'w os \<Rightarrow> 'w \<Rightarrow> string \<Rightarrow> FeedbackResult \<times> 'w" where
  "run_typescript os w workingDir =
     (case execSync os w ''npx tsc --noEmit 2>&1''
             \<lparr>cwd = Some workingDir, timeout = Some 60000, maxBuffer = None\<rparr> of
        (Inr tscResult, w') \<Rightarrow>
          (\<lparr>passed = True, output_text = or_else tscResult ''No type errors'',
            error = None, skipped = None\<rparr>, w')
      | (Inl err, w') \<Rightarrow>
          (\<lparr>passed = False, output_text = or_else_opt (stdout err) (message err),
            error = Some ''TypeScript type errors found'', skipped = None\<rparr>, w'))"

definition detect_test_runner :: "'w os \<Rightarrow> 'w \<Rightarrow> string \<Rightarrow> string \<times> 'w" where
  "detect_test_runner os w workingDir =
     (let options = \<lparr>cwd = Some workingDir, timeout = None, maxBuffer = None\<rparr> in
      case execSync os w ''npx vitest --version'' options of
        (Inr _, w1) \<Rightarrow> (''npx vitest run 2>&1'', w1)
      | (Inl _, w1) \<Rightarrow>
          (case execSync os w1 ''npx jest --version'' options of
             (Inr _, w2) \<Rightarrow> (''npx jest 2>&1'', w2)
           | (Inl _, w2) \<Rightarrow> (''npm test 2>&1'', w2)))"

definition run_tests :: "'w os \<Rightarrow> 'w \<Rightarrow> string \<Rightarrow> FeedbackResult \<times> 'w" where
  "run_tests os w workingDir =
     (case detect_test_runner os w workingDir of
        (testCmd, w1) \<Rightarrow>
          (case execSync os w1 testCmd
                  \<lparr>cwd = Some workingDir, timeout = Some 120000, maxBuffer = None\<rparr> of
             (Inr testResult, w2) \<Rightarrow>
               (\<lparr>passed = True, output_text = testResult, error = None, skipped = None\<rparr>, w2)
           | (Inl err, w2) \<Rightarrow>
               let out = or_else_opt (stdout err) (message err) in
               if string_includes out ''no test'' \<or> string_includes out ''No tests found'' then
                 (\<lparr>passed = True, output_text = ''No tests configured'',
                   error = None, skipped = Some True\<rparr>, w2)
               else
                 (\<lparr>passed = False, output_text = out,
                   error = Some ''Tests failed'', skipped = None\<rparr>, w2)))"

definition run_lint :: "'w os \<Rightarrow> 'w \<Rightarrow> string \<Rightarrow> FeedbackResult \<times> 'w" where
  "run_lint os w workingDir =
     (case execSync os w ''npx eslint . --ext .ts,.tsx,.js,.jsx 2>&1''
             \<lparr>cwd = Some workingDir, timeout = Some 60000, maxBuffer = None\<rparr> of
        (Inr lintResult, w') \<Rightarrow>
          (\<lparr>passed = True, output_text = or_else lintResult ''No lint errors'',
            error = None, skipped = None\<rparr>, w')
      | (Inl err, w') \<Rightarrow>
          let out = or_else_opt (stdout err) (message err) in
          if string_includes out ''No ESLint configuration''
             \<or> string_includes out ''eslint: not found'' then
            (\<lparr>passed = True, output_text = ''ESLint not configured'',
              error = None, skipped = Some True\<rparr>, w')
          else
            (\<lparr>passed = False, output_text = out,
              error = Some ''Lint errors found'', skipped = None\<rparr>, w'))"

text \<open>\<open>r?.passed ?? true\<close>, \<open>r?.passed\<close> and \<open>r?.skipped\<close> as conditions.\<close>

definition passed_or_true :: "FeedbackResult option \<Rightarrow> bool" where
  "passed_or_true r = (case r of None \<Rightarrow> True | Some x \<Rightarrow> passed x)"

definition is_passed :: "FeedbackResult option \<Rightarrow> bool" where
  "is_passed r = (case r of None \<Rightarrow> False | Some x \<Rightarrow> passed x)"

definition is_skipped :: "FeedbackResult option \<Rightarrow> bool" where
  "is_skipped r = (case r of None \<Rightarrow> False | Some x \<Rightarrow> skipped x = Some True)"

text \<open>The check mark and the cross of the summary, as their UTF-8 bytes.\<close>

definition check_mark :: string where
  "check_mark = [CHR 0xE2, CHR 0x9C, CHR 0x93]"

definition cross_mark :: string where
  "cross_mark = [CHR 0xE2, CHR 0x9C, CHR 0x97]"

definition statusEmoji :: "FeedbackResult option \<Rightarrow> string" where
  "statusEmoji r = (if is_passed r then check_mark else cross_mark)"

definition pass_skip_fail :: "FeedbackResult option \<Rightarrow> string" where
  "pass_skip_fail r =
     (if is_passed r then (if is_skipped r then ''SKIP'' else ''PASS'') else ''FAIL'')"

definition runFeedbackLoops :: "'w os \<Rightarrow> 'w \<Rightarrow> string \<Rightarrow> FeedbackLoopResults \<times> 'w" where
  "runFeedbackLoops os w workingDir =
     (case run_typescript os w workingDir of
        (ts, w1) \<Rightarrow>
          (case run_tests os w1 workingDir of
             (te, w2) \<Rightarrow>
               (case run_lint os w2 workingDir of
                  (li, w3) \<Rightarrow>
                    let all = passed_or_true (Some ts) \<and> passed_or_true (Some te)
                              \<and> passed_or_true (Some li)
                    in (\<lparr>typescript = Some ts, tests = Some te, lint = Some li,
                         allPassed = all,
                         summary =
                           ''Feedback Loop Results:'' @ nl
                           @ statusEmoji (Some ts) @ '' TypeScript: ''
                           @ (if is_passed (Some ts) then ''PASS'' else ''FAIL'') @ nl
                           @ statusEmoji (Some te) @ '' Tests: '' @ pass_skip_fail (Some te) @ nl
                           @ statusEmoji (Some li) @ '' Lint: '' @ pass_skip_fail (Some li) @ nl
                           @ nl
                           @ (if all then check_mark @ '' All checks passed!''
                              else cross_mark @ '' Some checks failed - fix and retry'')\<rparr>,
                        w3))))"

section \<open>Tool definitions\<close>

text \<open>
  tools.ts. A tool definition is modelled by its name, the names of the properties of
  its input schema and the list of required properties, when the schema has one; the
  description texts are not reproduced.
\<close>

record ToolDefinition =
  name :: string
  properties :: "string list"
  required :: "string list option"

definition readFileTool :: ToolDefinition where
  "readFileTool = \<lparr>name = ''read_file'', properties = [''path''], required = Some [''path'']\<rparr>"

definition listFilesTool :: ToolDefinition where
  "listFilesTool = \<lparr>name = ''list_files'', properties = [''path''], required = None\<rparr>"

definition codeSearchTool :: ToolDefinition where
  "codeSearchTool =
     \<lparr>name = ''code_search'',
      properties = [''pattern'', ''path'', ''file_type'', ''case_sensitive''],
      required = Some [''pattern'']\<rparr>"

definition editFileTool :: ToolDefinition where
  "editFileTool =
     \<lparr>name = ''edit_file'', properties = [''path'', ''old_str'', ''new_str''],
      required = Some [''path'', ''old_str'', ''new_str'']\<rparr>"

definition bashTool :: ToolDefinition where
  "bashTool =
     \<lparr>name = ''bash'', properties = [''command'', ''timeout''], required = Some [''command'']\<rparr>"






definition feedbackLoopTool :: ToolDefinition where
  "feedbackLoopTool =
     \<lparr>name = ''feedback_loop'', properties = [''working_directory'', ''fix_and_retry''],
      required = None\<rparr>"

definition readOnlyTools :: "ToolDefinition list" where
  "readOnlyTools = [readFileTool, listFilesTool, codeSearchTool]"

definition writeTools :: "ToolDefinition list" where
  "writeTools = [editFileTool, bashTool]"


definition subagentTools :: "ToolDefinition list" where
  "subagentTools = readOnlyTools @ writeTools @ [feedbackLoopTool]"

definition searchAgentTools :: "ToolDefinition list" where
  "searchAgentTools = readOnlyTools"

definition librarianTools :: "ToolDefinition list" where
  "librarianTools = readOnlyTools"

section \<open>Configuration\<close>

record Config =
  mainModel :: string
  mainModelProvider :: string
  oracleModel :: string
  oracleProvider :: string
  searchModel :: string
  searchProvider :: string
  maxTokens :: int

definition CONFIG :: Config where
  "CONFIG =
     \<lparr>mainModel = ''claude-sonnet-4-20250514'', mainModelProvider = ''anthropic'',
      oracleModel = ''o3-mini'', oracleProvider = ''openai'',
      searchModel = ''gemini-2.0-flash'', searchProvider = ''google'',
      maxTokens = 8096\<rparr>"

section \<open>Messages, providers and the tool-call loop\<close>

text \<open>
  The block-structured protocol. The input of a tool call is of a type \<open>'i\<close> that the
  loops never look into. A provider answers a request with the content blocks of its
  response or throws; the function that executes a tool call stands for the
  \<open>executeTool\<close> method of the agent at hand (with the logging around it), and may throw
  as well. Both may change the world.
\<close>

datatype 'i content_block =
    TextBlock string
  | ToolUseBlock string string 'i
  | OtherBlock

record ToolResultBlock =
  tool_use_id :: string
  content :: string

datatype 'i message =
    UserText string
  | AssistantContent "'i content_block list"
  | UserToolResults "ToolResultBlock list"

record 'i request =
  model :: string
  max_tokens :: int
  system :: string
  tools :: "ToolDefinition list"
  messages :: "'i message list"

type_synonym ('i, 'w) provider =
  "'w \<Rightarrow> 'i request \<Rightarrow> (js_error + 'i content_block list) \<times> 'w"

type_synonym ('i, 'w) executor = "'w \<Rightarrow> string \<Rightarrow> 'i \<Rightarrow> (js_error + string) \<times> 'w"

text \<open>
  The \<open>for\<close> loop over the blocks of a response. \<open>assign\<close> is what a text block does to
  \<open>textResponse\<close>: \<open>=\<close> in the search agent, the librarian and the subagent, \<open>+=\<close> in the
  oracle.
\<close>

fun run_blocks ::
  "(string \<Rightarrow> string \<Rightarrow> string) \<Rightarrow> ('i, 'w) executor \<Rightarrow> 'w \<Rightarrow> 'i content_block list \<Rightarrow>
   ToolResultBlock list \<Rightarrow> string \<Rightarrow> (js_error + ToolResultBlock list \<times> string) \<times> 'w"
where
  "run_blocks assign exec w [] toolResults textResponse = (Inr (toolResults, textResponse), w)"
| "run_blocks assign exec w (TextBlock t # blocks) toolResults textResponse =
     run_blocks assign exec w blocks toolResults (assign textResponse t)"
| "run_blocks assign exec w (ToolUseBlock i n input # blocks) toolResults textResponse =
     (case exec w n input of
        (Inl err, w') \<Rightarrow> (Inl err, w')
      | (Inr result, w') \<Rightarrow>
          run_blocks assign exec w' blocks
            (toolResults @ [\<lparr>tool_use_id = i, content = result\<rparr>]) textResponse)"
| "run_blocks assign exec w (OtherBlock # blocks) toolResults textResponse =
     run_blocks assign exec w blocks toolResults textResponse"

text \<open>
  The \<open>while (iterations < maxIterations)\<close> loop that \<open>searchWithAnthropic\<close>,
  \<open>Librarian.research\<close> and \<open>Subagent.spawn\<close> each contain, with the cap and the request
  as parameters. It returns how the loop was left, the value of \<open>iterations\<close> (the number
  of calls of the provider), the conversation and the world. \<open>Thrown\<close> is an exception
  leaving the loop.
\<close>

datatype loop_exit = Completed string | MaxIterations | NoCandidate | Thrown js_error

function tool_loop ::
  "nat \<Rightarrow> ('i message list \<Rightarrow> 'i request) \<Rightarrow> ('i, 'w) provider \<Rightarrow> ('i, 'w) executor \<Rightarrow>
   'w \<Rightarrow> 'i message list \<Rightarrow> nat \<Rightarrow> loop_exit \<times> nat \<times> 'i message list \<times> 'w"
where
  "tool_loop maxIterations request create exec w msgs iterations =
     (if iterations < maxIterations then
        (case create w (request msgs) of
           (Inl err, w1) \<Rightarrow> (Thrown err, iterations + 1, msgs, w1)
         | (Inr response, w1) \<Rightarrow>
             (case run_blocks (\<lambda>old new. new) exec w1 response [] [] of
                (Inl err, w2) \<Rightarrow>
                  (Thrown err, iterations + 1, msgs @ [AssistantContent response], w2)
              | (Inr (toolResults, textResponse), w2) \<Rightarrow>
                  if toolResults = [] then
                    (Completed textResponse, iterations + 1,
                     msgs @ [AssistantContent response], w2)
                  else
                    tool_loop maxIterations request create exec w2
                      (msgs @ [AssistantContent response, UserToolResults toolResults])
                      (iterations + 1)))
      else (MaxIterations, iterations, msgs, w))"
  by pat_completeness auto
termination
  by (relation "measure (\<lambda>(maxIterations, request, create, exec, w, msgs, iterations).
        maxIterations - iterations)") auto

declare tool_loop.simps [simp del]

section \<open>The search agent\<close>

definition search_systemPrompt :: "string \<Rightarrow> string" where
  "search_systemPrompt scope =
     ''You are a fast codebase search agent. Your job is to quickly find relevant code.''
       @ nl @ nl @ ''STRATEGY:'' @ nl
       @ ''- Use code_search aggressively with diverse queries'' @ nl
       @ ''- Fire off MULTIPLE parallel searches when possible'' @ nl
       @ ''- Read files only when you need to verify findings'' @ nl
       @ ''- Conclude early once you have enough information'' @ nl @ nl @ ''You'' @ squote
       @ ''re searching in: '' @ scope @ nl @ nl
       @ ''Return a concise summary of what you found and where.''"

definition search_request :: "string \<Rightarrow> 'i message list \<Rightarrow> 'i request" where
  "search_request systemPrompt msgs =
     \<lparr>model = ''claude-3-5-haiku-20241022'', max_tokens = 4096, system = systemPrompt,
      tools = searchAgentTools, messages = msgs\<rparr>"

definition searchWithAnthropic_loop ::
  "('i, 'w) provider \<Rightarrow> ('i, 'w) executor \<Rightarrow> 'w \<Rightarrow> string \<Rightarrow> string \<Rightarrow>
   loop_exit \<times> nat \<times> 'i message list \<times> 'w"
where
  "searchWithAnthropic_loop create exec w systemPrompt query =
     tool_loop 10 (search_request systemPrompt) create exec w [UserText query] 0"

definition searchWithAnthropic ::
  "('i, 'w) provider \<Rightarrow> ('i, 'w) executor \<Rightarrow> 'w \<Rightarrow> string \<Rightarrow> string \<Rightarrow> (js_error + string) \<times> 'w"
where
  "searchWithAnthropic create exec w systemPrompt query =
     (case searchWithAnthropic_loop create exec w systemPrompt query of
        (Completed textResponse, iterations, msgs, w') \<Rightarrow> (Inr textResponse, w')
      | (Thrown err, iterations, msgs, w') \<Rightarrow> (Inl err, w')
      | (_, iterations, msgs, w') \<Rightarrow> (Inr ''Search reached maximum iterations'', w'))"

text \<open>
  The part-structured protocol of \<open>searchWithGemini\<close>. The chat session is created with
  the system prompt and the tools of the search agent and keeps the history, so a
  provider answers each message sent; its answer is the parts of the first candidate, or
  nothing when the response has no candidate.
\<close>

text \<open>\<open>part_text\<close> is the field \<open>text\<close> of a part; a function call is its name and its
  arguments.\<close>

record 'i GeminiPart =
  part_text :: "string option"
  functionCall :: "(string \<times> 'i) option"

datatype gemini_message =
    SendText string
  | SendFunctionResponses "(string \<times> string) list"

type_synonym ('i, 'w) gemini_chat =
  "'w \<Rightarrow> gemini_message \<Rightarrow> (js_error + 'i GeminiPart list option) \<times> 'w"

fun run_function_calls ::
  "('i, 'w) executor \<Rightarrow> 'w \<Rightarrow> 'i GeminiPart list \<Rightarrow> (string \<times> string) list \<Rightarrow>
   (js_error + (string \<times> string) list) \<times> 'w"
where
  "run_function_calls exec w [] functionResponses = (Inr functionResponses, w)"
| "run_function_calls exec w (part # parts) functionResponses =
     (case functionCall part of
        None \<Rightarrow> run_function_calls exec w parts functionResponses
      | Some (n, args) \<Rightarrow>
          (case exec w n args of
             (Inl err, w') \<Rightarrow> (Inl err, w')
           | (Inr result, w') \<Rightarrow>
               run_function_calls exec w' parts (functionResponses @ [(n, result)])))"

definition finalText :: "'i GeminiPart list \<Rightarrow> string" where
  "finalText parts =
     (case find (\<lambda>p. part_text p \<noteq> None \<and> part_text p \<noteq> Some []) parts of
        None \<Rightarrow> ''Search completed''
      | Some textPart \<Rightarrow> or_else_opt (part_text textPart) ''Search completed'')"

text \<open>The loop of \<open>searchWithGemini\<close>; the third component of its result counts the
  messages sent to the chat inside the loop.\<close>

function gemini_loop ::
  "('i, 'w) gemini_chat \<Rightarrow> ('i, 'w) executor \<Rightarrow> 'w \<Rightarrow> 'i GeminiPart list option \<Rightarrow> nat \<Rightarrow> nat \<Rightarrow>
   loop_exit \<times> nat \<times> nat \<times> 'w"
where
  "gemini_loop sendMessage exec w response iterations sent =
     (if iterations < 10 then
        (case response of
           None \<Rightarrow> (NoCandidate, iterations + 1, sent, w)
         | Some parts \<Rightarrow>
             let functionCalls = filter (\<lambda>p. functionCall p \<noteq> None) parts in
             if functionCalls = [] then (Completed (finalText parts), iterations + 1, sent, w)
             else
               (case run_function_calls exec w functionCalls [] of
                  (Inl err, w1) \<Rightarrow> (Thrown err, iterations + 1, sent, w1)
                | (Inr functionResponses, w1) \<Rightarrow>
                    (case sendMessage w1 (SendFunctionResponses functionResponses) of
                       (Inl err, w2) \<Rightarrow> (Thrown err, iterations + 1, sent + 1, w2)
                     | (Inr response', w2) \<Rightarrow>
                         gemini_loop sendMessage exec w2 response' (iterations + 1) (sent + 1))))
      else (MaxIterations, iterations, sent, w))"
  by pat_completeness auto
termination
  by (relation "measure (\<lambda>(sendMessage, exec, w, response, iterations, sent). 10 - iterations)")
     auto

declare gemini_loop.simps [simp del]

definition searchWithGemini_loop ::
  "('i, 'w) gemini_chat \<Rightarrow> ('i, 'w) executor \<Rightarrow> 'w \<Rightarrow> string \<Rightarrow> loop_exit \<times> nat \<times> nat \<times> 'w"
where
  "searchWithGemini_loop sendMessage exec w query =
     (case sendMessage w (SendText query) of
        (Inl err, w1) \<Rightarrow> (Thrown err, 0, 1, w1)
      | (Inr response, w1) \<Rightarrow> gemini_loop sendMessage exec w1 response 0 1)"

definition searchWithGemini ::
  "('i, 'w) gemini_chat \<Rightarrow> ('i, 'w) executor \<Rightarrow> 'w \<Rightarrow> string \<Rightarrow> (js_error + string) \<times> 'w"
where
  "searchWithGemini sendMessage exec w query =
     (case searchWithGemini_loop sendMessage exec w query of
        (Completed text, iterations, sent, w') \<Rightarrow> (Inr text, w')
      | (Thrown err, iterations, sent, w') \<Rightarrow> (Inl err, w')
      | (_, iterations, sent, w') \<Rightarrow> (Inr ''Search reached maximum iterations'', w'))"

text \<open>\<open>SearchAgent.search\<close>; \<open>genAI\<close> tells whether the Gemini client was created.\<close>

definition search ::
  "bool \<Rightarrow> ('i, 'w) gemini_chat \<Rightarrow> ('i, 'w) provider \<Rightarrow> ('i, 'w) executor \<Rightarrow> 'w \<Rightarrow>
   string \<Rightarrow> string \<Rightarrow> (js_error + string) \<times> 'w"
where
  "search genAI sendMessage create exec w query scope =
     (let systemPrompt = search_systemPrompt scope in
      case (if searchProvider CONFIG = ''google'' \<and> genAI
            then searchWithGemini sendMessage exec w query
            else searchWithAnthropic create exec w systemPrompt query) of
        (Inr found, w') \<Rightarrow> (Inr found, w')
      | (Inl err, w') \<Rightarrow> (Inr (''Search error: '' @ message err), w'))"

section \<open>The librarian\<close>

definition librarian_systemPrompt :: "string \<Rightarrow> int \<Rightarrow> string \<Rightarrow> string" where
  "librarian_systemPrompt library currentYear request_type =
     ''You are THE LIBRARIAN, a specialized agent for researching external libraries.''
       @ nl @ nl @ ''YOUR JOB: Answer questions about '' @ dquote @ library @ dquote
       @ '' by finding EVIDENCE in the local codebase.'' @ nl @ nl @ ''CURRENT YEAR: ''
       @ show_int currentYear @ nl @ nl @ ''REQUEST TYPE: '' @ toUpperCase request_type
       @ nl @ nl @ ''YOUR TOOLS:'' @ nl
       @ ''- code_search: Search the LOCAL codebase for how '' @ dquote @ library @ dquote
       @ '' is used here'' @ nl @ ''- read_file: Read local files that use '' @ dquote
       @ library @ dquote @ nl @ ''- list_files: Find files related to '' @ dquote
       @ library @ dquote @ nl @ nl
       @ ''Focus on what you CAN find locally. Acknowledge when external docs would help.''"

definition librarian_userMessage :: "string \<Rightarrow> string \<Rightarrow> string" where
  "librarian_userMessage library query =
     ''Research question about '' @ library @ '': '' @ query @ nl @ nl
       @ ''Search the local codebase for existing usage of '' @ library
       @ '', then provide your analysis.''"

definition librarian_request :: "string \<Rightarrow> 'i message list \<Rightarrow> 'i request" where
  "librarian_request systemPrompt msgs =
     \<lparr>model = mainModel CONFIG, max_tokens = maxTokens CONFIG, system = systemPrompt,
      tools = librarianTools, messages = msgs\<rparr>"

definition research_loop ::
  "('i, 'w) provider \<Rightarrow> ('i, 'w) executor \<Rightarrow> 'w \<Rightarrow> int \<Rightarrow> string \<Rightarrow> string \<Rightarrow> string \<Rightarrow>
   loop_exit \<times> nat \<times> 'i message list \<times> 'w"
where
  "research_loop create exec w currentYear query library request_type =
     tool_loop 15 (librarian_request (librarian_systemPrompt library currentYear request_type))
       create exec w [UserText (librarian_userMessage library query)] 0"

text \<open>\<open>Librarian.research\<close>; the current year comes from the clock.\<close>

definition research ::
  "('i, 'w) provider \<Rightarrow> ('i, 'w) executor \<Rightarrow> 'w \<Rightarrow> int \<Rightarrow> string \<Rightarrow> string \<Rightarrow> string \<Rightarrow>
   (js_error + string) \<times> 'w"
where
  "research create exec w currentYear query library request_type =
     (case research_loop create exec w currentYear query library request_type of
        (Completed textResponse, iterations, msgs, w') \<Rightarrow>
          (Inr (or_else textResponse ''Research completed''), w')
      | (Thrown err, iterations, msgs, w') \<Rightarrow> (Inr (''Librarian error: '' @ message err), w')
      | (_, iterations, msgs, w') \<Rightarrow> (Inr ''Librarian reached maximum iterations'', w'))"

section \<open>The subagent\<close>

definition outputInstructions :: "string \<Rightarrow> int \<Rightarrow> string" where
  "outputInstructions outputFormat maxOutputTokens =
     (if outputFormat = ''summary'' then
        ''OUTPUT: Brief summary with bullet points. Keep under '' @ show_int maxOutputTokens
        @ '' tokens.''
      else if outputFormat = ''structured'' then
        ''OUTPUT: Valid JSON only. Keep under '' @ show_int maxOutputTokens @ '' tokens.''
      else
        ''OUTPUT: Be thorough but concise. Keep under '' @ show_int maxOutputTokens
        @ '' tokens.'')"

definition subagent_systemPrompt :: "string \<Rightarrow> int \<Rightarrow> string \<Rightarrow> string" where
  "subagent_systemPrompt workingDirectory maxOutputTokens outputFormat =
     ''You are a focused subagent completing a specific task.'' @ nl @ nl
       @ ''Your job: Complete the task and return a clear result.'' @ nl @ nl
       @ ''IMPORTANT - CONTEXT EFFICIENCY:'' @ nl
       @ ''- You exist to do work so the parent agent'' @ squote
       @ ''s context stays clean'' @ nl
       @ ''- The parent ONLY sees your final text response'' @ nl
       @ ''- Be thorough in your work, concise in your response'' @ nl @ nl
       @ outputInstructions outputFormat maxOutputTokens @ nl @ nl
       @ ''Working directory: '' @ workingDirectory"

definition subagent_request :: "string \<Rightarrow> 'i message list \<Rightarrow> 'i request" where
  "subagent_request systemPrompt msgs =
     \<lparr>model = mainModel CONFIG, max_tokens = maxTokens CONFIG, system = systemPrompt,
      tools = subagentTools, messages = msgs\<rparr>"

definition spawn_loop ::
  "('i, 'w) provider \<Rightarrow> ('i, 'w) executor \<Rightarrow> 'w \<Rightarrow> string \<Rightarrow> string \<Rightarrow> int \<Rightarrow> string \<Rightarrow>
   loop_exit \<times> nat \<times> 'i message list \<times> 'w"
where
  "spawn_loop create exec w task workingDirectory maxOutputTokens outputFormat =
     tool_loop 20
       (subagent_request (subagent_systemPrompt workingDirectory maxOutputTokens outputFormat))
       create exec w [UserText task] 0"

text \<open>\<open>Subagent.spawn\<close>.\<close>

definition spawn ::
  "('i, 'w) provider \<Rightarrow> ('i, 'w) executor \<Rightarrow> 'w \<Rightarrow> string \<Rightarrow> string \<Rightarrow> int \<Rightarrow> string \<Rightarrow>
   (js_error + string) \<times> 'w"
where
  "spawn create exec w task workingDirectory maxOutputTokens outputFormat =
     (case spawn_loop create exec w task workingDirectory maxOutputTokens outputFormat of
        (Completed textResponse, iterations, msgs, w') \<Rightarrow>
          (Inr (truncateOutput (or_else textResponse ''Task completed'') maxOutputTokens), w')
      | (Thrown err, iterations, msgs, w') \<Rightarrow> (Inr (''Subagent error: '' @ message err), w')
      | (_, iterations, msgs, w') \<Rightarrow>
          (Inr (truncateOutput ''Subagent reached maximum iterations.'' maxOutputTokens), w'))"

section \<open>The oracle\<close>

definition oracle_systemPrompt :: string where
  "oracle_systemPrompt =
     ''You are the Oracle - a powerful reasoning model consulted for complex analysis.''
       @ nl @ nl @ ''Your strengths:'' @ nl @ ''- Deep code analysis and bug finding'' @ nl
       @ ''- Understanding complex logic and architecture'' @ nl
       @ ''- Debugging difficult issues'' @ nl @ ''- Planning refactoring strategies'' @ nl
       @ nl
       @ ''You have READ-ONLY access to the codebase. You can read files and search, but CANNOT edit.''
       @ nl @ nl @ ''Be thorough but concise. Focus on actionable insights.''"


definition oracle_request :: "string \<Rightarrow> 'i message list \<Rightarrow> 'i request" where
  "oracle_request systemPrompt msgs =
     \<lparr>model = oracleModel CONFIG, max_tokens = maxTokens CONFIG, system = systemPrompt,
      tools = readOnlyTools, messages = msgs\<rparr>"

text \<open>
  \<open>consultAnthropic\<close> contains a \<open>while (true)\<close> loop, which need not end. The model
  runs it for at most \<open>fuel\<close> iterations: the first component of the result is \<open>None\<close>
  when the loop is still running then. The second component lists the requests made so
  far.
\<close>

fun consultAnthropic_loop ::
  "nat \<Rightarrow> ('i, 'w) provider \<Rightarrow> ('i, 'w) executor \<Rightarrow> 'w \<Rightarrow> string \<Rightarrow> 'i message list \<Rightarrow>
   'i request list \<Rightarrow> (js_error + string) option \<times> 'i request list \<times> 'i message list \<times> 'w"
where
  "consultAnthropic_loop 0 create exec w systemPrompt msgs made = (None, made, msgs, w)"
| "consultAnthropic_loop (Suc fuel) create exec w systemPrompt msgs made =
     (let req = oracle_request systemPrompt msgs in
      case create w req of
        (Inl err, w1) \<Rightarrow> (Some (Inl err), made @ [req], msgs, w1)
      | (Inr response, w1) \<Rightarrow>
          (case run_blocks (\<lambda>old new. old @ new) exec w1 response [] [] of
             (Inl err, w2) \<Rightarrow>
               (Some (Inl err), made @ [req], msgs @ [AssistantContent response], w2)
           | (Inr (toolResults, textResponse), w2) \<Rightarrow>
               if toolResults = [] then
                 (Some (Inr textResponse), made @ [req], msgs @ [AssistantContent response], w2)
               else
                 consultAnthropic_loop fuel create exec w2 systemPrompt
                   (msgs @ [AssistantContent response, UserToolResults toolResults])
                   (made @ [req])))"

definition consultAnthropic ::
  "nat \<Rightarrow> ('i, 'w) provider \<Rightarrow> ('i, 'w) executor \<Rightarrow> 'w \<Rightarrow> string \<Rightarrow> string \<Rightarrow>
   (js_error + string) option \<times> 'i request list \<times> 'i message list \<times> 'w"
where
  "consultAnthropic fuel create exec w systemPrompt userMessage =
     consultAnthropic_loop fuel create exec w systemPrompt [UserText userMessage] []"

text \<open>
  The message-structured protocol: the tool calls of an assistant message carry their
  arguments as a string, which \<open>JSON.parse\<close> turns into the input of the tool or throws
  on. \<open>JSON.parse\<close> belongs to the language; it is a parameter here. A response is the
  list of the messages of its choices.
\<close>

text \<open>The fields \<open>function.name\<close> and \<open>function.parameters\<close> of a tool in the format of
  this protocol.\<close>

record OpenAITool =
  function_name :: string
  function_properties :: "string list"
  function_required :: "string list option"

definition toOpenAITools :: "ToolDefinition list \<Rightarrow> OpenAITool list" where
  "toOpenAITools ts =
     map (\<lambda>tool. \<lparr>function_name = name tool, function_properties = properties tool,
                   function_required = required tool\<rparr>) ts"

text \<open>The fields \<open>id\<close>, \<open>function.name\<close> and \<open>function.arguments\<close> of a tool call, and
  the fields \<open>content\<close> and \<open>tool_calls\<close> of an assistant message.\<close>

record OpenAIToolCall =
  call_id :: string
  call_name :: string
  call_arguments :: string

record OpenAIMessage =
  message_content :: "string option"
  tool_calls :: "OpenAIToolCall list option"

datatype openai_param =
    SystemParam string
  | UserParam string
  | AssistantParam OpenAIMessage
  | ToolParam string string

record openai_request =
  openai_model :: string
  openai_messages :: "openai_param list"
  openai_tools :: "OpenAITool list"

type_synonym 'w openai_provider =
  "'w \<Rightarrow> openai_request \<Rightarrow> (js_error + OpenAIMessage list) \<times> 'w"

text \<open>An \<open>Error\<close>, of whatever class, that has a message and nothing else.\<close>

definition new_Error :: "string \<Rightarrow> js_error" where
  "new_Error text = \<lparr>message = text, stdout = None, stderr = None, status = None\<rparr>"

text \<open>The \<open>for\<close> loop over the tool calls of a message: the first component of the
  result is the exception that left the loop, if any.\<close>

fun run_tool_calls ::
  "(string \<Rightarrow> js_error + 'i) \<Rightarrow> ('i, 'w) executor \<Rightarrow> 'w \<Rightarrow> OpenAIToolCall list \<Rightarrow>
   openai_param list \<Rightarrow> js_error option \<times> openai_param list \<times> 'w"
where
  "run_tool_calls parse exec w [] msgs = (None, msgs, w)"
| "run_tool_calls parse exec w (toolCall # toolCalls) msgs =
     (case parse (call_arguments toolCall) of
        Inl err \<Rightarrow> (Some err, msgs, w)
      | Inr input \<Rightarrow>
          (case exec w (call_name toolCall) input of
             (Inl err, w') \<Rightarrow> (Some err, msgs, w')
           | (Inr result, w') \<Rightarrow>
               run_tool_calls parse exec w' toolCalls
                 (msgs @ [ToolParam (call_id toolCall) result])))"

definition has_tool_calls :: "OpenAIMessage \<Rightarrow> bool" where
  "has_tool_calls msg = (case tool_calls msg of None \<Rightarrow> False | Some calls \<Rightarrow> calls \<noteq> [])"

definition the_tool_calls :: "OpenAIMessage \<Rightarrow> OpenAIToolCall list" where
  "the_tool_calls msg = (case tool_calls msg of None \<Rightarrow> [] | Some calls \<Rightarrow> calls)"

text \<open>The loop of \<open>consultOpenAI\<close>, with fuel as above, then the method.\<close>

fun consultOpenAI_loop ::
  "nat \<Rightarrow> (string \<Rightarrow> js_error + 'i) \<Rightarrow> 'w openai_provider \<Rightarrow> ('i, 'w) executor \<Rightarrow> 'w \<Rightarrow>
   openai_param list \<Rightarrow> openai_request list \<Rightarrow>
   (js_error + string) option \<times> openai_request list \<times> openai_param list \<times> 'w"
where
  "consultOpenAI_loop 0 parse create exec w msgs made = (None, made, msgs, w)"
| "consultOpenAI_loop (Suc fuel) parse create exec w msgs made =
     (let req = \<lparr>openai_model = oracleModel CONFIG, openai_messages = msgs,
                 openai_tools = toOpenAITools readOnlyTools\<rparr> in
      case create w req of
        (Inl err, w1) \<Rightarrow> (Some (Inl err), made @ [req], msgs, w1)
      | (Inr [], w1) \<Rightarrow>
          (Some (Inl (new_Error (''Cannot read properties of undefined (reading '' @ squote
                              @ ''message'' @ squote @ '')''))),
           made @ [req], msgs, w1)
      | (Inr (msg # _), w1) \<Rightarrow>
          if has_tool_calls msg then
            (case run_tool_calls parse exec w1 (the_tool_calls msg) (msgs @ [AssistantParam msg]) of
               (Some err, msgs2, w2) \<Rightarrow> (Some (Inl err), made @ [req], msgs2, w2)
             | (None, msgs2, w2) \<Rightarrow> consultOpenAI_loop fuel parse create exec w2 msgs2 (made @ [req]))
          else
            (Some (Inr (or_else_opt (message_content msg) ''No response from oracle'')),
             made @ [req], msgs @ [AssistantParam msg], w1))"

definition consultOpenAI ::
  "nat \<Rightarrow> bool \<Rightarrow> (string \<Rightarrow> js_error + 'i) \<Rightarrow> 'w openai_provider \<Rightarrow> ('i, 'w) executor \<Rightarrow>
   'w \<Rightarrow> string \<Rightarrow> string \<Rightarrow>
   (js_error + string) option \<times> openai_request list \<times> openai_param list \<times> 'w"
where
  "consultOpenAI fuel openaiClient parse create exec w systemPrompt userMessage =
     (if \<not> openaiClient
      then (Some (Inl (new_Error ''OpenAI client not initialized'')), [], [], w)
      else consultOpenAI_loop fuel parse create exec w
             [SystemParam systemPrompt, UserParam userMessage] [])"


section \<open>The main agent\<close>



section \<open>Parallel subagents\<close>

text \<open>
  \<open>Agent.runParallelSubagents\<close>. The calls of \<open>spawn\<close> run interleaved with each
  other, so what one of them settles to is not a function of its arguments alone:
  \<open>spawned i\<close> stands for the call made for the task at position \<open>i\<close>, with \<open>Inl\<close> a
  rejected promise. \<open>Promise.all\<close> gives the results in the order of the promises.
\<close>

text \<open>The fields \<open>name\<close>, \<open>task\<close> and \<open>working_directory\<close> of a task, and the fields
  \<open>name\<close>, \<open>success\<close> and \<open>result\<close> of a \<open>ParallelTaskResult\<close>.\<close>

record SubagentTask =
  task_name :: string
  task_text :: string
  working_directory :: "string option"

record ParallelTaskResult =
  result_name :: string
  success :: bool
  result_text :: string

type_synonym spawned = "nat \<Rightarrow> string \<Rightarrow> string \<Rightarrow> int \<Rightarrow> string \<Rightarrow> js_error + string"

definition settle :: "spawned \<Rightarrow> int \<Rightarrow> nat \<times> SubagentTask \<Rightarrow> ParallelTaskResult" where
  "settle spawned maxOutputTokens it =
     (case it of
        (i, task) \<Rightarrow>
          (case spawned i (task_text task) (or_else_opt (working_directory task) ''.'')
                  maxOutputTokens ''summary'' of
             Inr answer \<Rightarrow>
               \<lparr>result_name = task_name task, success = True, result_text = answer\<rparr>
           | Inl err \<Rightarrow>
               \<lparr>result_name = task_name task, success = False,
                result_text = ''Error: '' @ message err\<rparr>))"

definition parallel_results :: "spawned \<Rightarrow> SubagentTask list \<Rightarrow> int \<Rightarrow> ParallelTaskResult list" where
  "parallel_results spawned tasks maxOutputTokens =
     map (settle spawned maxOutputTokens) (enumerate 0 tasks)"

definition formattedResults :: "ParallelTaskResult list \<Rightarrow> string list" where
  "formattedResults results = map (\<lambda>r. ''## '' @ result_name r @ nl @ result_text r) results"

definition runParallelSubagents :: "spawned \<Rightarrow> SubagentTask list \<Rightarrow> int \<Rightarrow> string" where
  "runParallelSubagents spawned tasks maxOutputTokens =
     join (nl @ nl @ ''---'' @ nl @ nl)
       (formattedResults (parallel_results spawned tasks maxOutputTokens))"

section \<open>The words of the specification\<close>

text \<open>The words of the specification: the marker that states how many characters were
  elided, the first \<open>keep\<close> characters of a text and its last \<open>keep\<close> characters.\<close>

definition marker :: "int \<Rightarrow> string" where
  "marker removedCount =
     nl @ nl @ ''... [TRUNCATED - '' @ show_int removedCount @ '' chars removed] ...'' @ nl @ nl"

definition head_chars :: "string \<Rightarrow> int \<Rightarrow> string" where
  "head_chars text keep = take (nat keep) text"

definition tail_chars :: "string \<Rightarrow> int \<Rightarrow> string" where
  "tail_chars text keep = drop (length text - nat keep) text"

text \<open>The words of the specification: \<open>X.ok := X.passed OR X.skipped\<close>.\<close>

definition ok :: "FeedbackResult option \<Rightarrow> bool" where
  "ok r = (is_passed r \<or> is_skipped r)"

text \<open>The names of the meta-tools, which delegate to another agent.\<close>

definition metaToolNames :: "string list" where
  "metaToolNames =
     [''oracle'', ''subagent'', ''search_agent'', ''parallel_subagents'', ''librarian'',
      ''feedback_loop'']"

text \<open>
  The number of positions at which a text occurs in another.
\<close>

definition occurrences :: "string \<Rightarrow> string \<Rightarrow> nat" where
  "occurrences s p = length (filter (\<lambda>i. startsWith (drop i s) p) [0..<Suc (length s)])"

fun is_tool_use :: "'i content_block \<Rightarrow> bool" where
  "is_tool_use (ToolUseBlock i n input) = True"
| "is_tool_use b = False"

text \<open>A provider stub that always emits a tool call, in the block-structured and in the
  part-structured protocol, and an executor that returns a string whatever it is asked.\<close>

definition always_tool_call :: "('i, 'w) provider \<Rightarrow> bool" where
  "always_tool_call create =
     (\<forall>w req. \<exists>response w'. create w req = (Inr response, w') \<and> filter is_tool_use response \<noteq> [])"

definition always_function_call :: "('i, 'w) gemini_chat \<Rightarrow> bool" where
  "always_function_call sendMessage =
     (\<forall>w m. \<exists>parts w'. sendMessage w m = (Inr (Some parts), w')
                       \<and> filter (\<lambda>p. functionCall p \<noteq> None) parts \<noteq> [])"

definition executor_returns :: "('i, 'w) executor \<Rightarrow> bool" where
  "executor_returns exec = (\<forall>w n input. \<exists>s w'. exec w n input = (Inr s, w'))"

text \<open>
  A turn with tool calls, after which a loop goes on: the provider answers, its response
  calls tools, and every tool returns. \<open>tool_turn\<close> is the state of a block-structured
  loop, its world and its conversation, after such a turn; there is none when the provider
  throws, when the response calls no tool or when a tool throws. \<open>tool_turns k\<close> is the
  state after \<open>k\<close> such turns in a row. \<open>gemini_turn\<close> and \<open>gemini_turns\<close> are the same
  for the part-structured loop, whose state is its world and the response it has last
  received.
\<close>

definition tool_turn ::
  "('i message list \<Rightarrow> 'i request) \<Rightarrow> ('i, 'w) provider \<Rightarrow> ('i, 'w) executor \<Rightarrow>
   'w \<times> 'i message list \<Rightarrow> ('w \<times> 'i message list) option"
where
  "tool_turn request create exec s =
     (case create (fst s) (request (snd s)) of
        (Inl err, w1) \<Rightarrow> None
      | (Inr response, w1) \<Rightarrow>
          if filter is_tool_use response = [] then None
          else (case run_blocks (\<lambda>old new. new) exec w1 response [] [] of
                  (Inl err, w2) \<Rightarrow> None
                | (Inr (toolResults, textResponse), w2) \<Rightarrow>
                    Some (w2, snd s @ [AssistantContent response, UserToolResults toolResults])))"

fun tool_turns ::
  "nat \<Rightarrow> ('i message list \<Rightarrow> 'i request) \<Rightarrow> ('i, 'w) provider \<Rightarrow> ('i, 'w) executor \<Rightarrow>
   'w \<times> 'i message list \<Rightarrow> ('w \<times> 'i message list) option"
where
  "tool_turns 0 request create exec s = Some s"
| "tool_turns (Suc k) request create exec s =
     (case tool_turn request create exec s of
        None \<Rightarrow> None
      | Some s' \<Rightarrow> tool_turns k request create exec s')"

definition gemini_turn ::
  "('i, 'w) gemini_chat \<Rightarrow> ('i, 'w) executor \<Rightarrow> 'w \<times> 'i GeminiPart list option \<Rightarrow>
   ('w \<times> 'i GeminiPart list option) option"
where
  "gemini_turn sendMessage exec s =
     (case snd s of
        None \<Rightarrow> None
      | Some parts \<Rightarrow>
          if filter (\<lambda>p. functionCall p \<noteq> None) parts = [] then None
          else (case run_function_calls exec (fst s)
                       (filter (\<lambda>p. functionCall p \<noteq> None) parts) [] of
                  (Inl err, w1) \<Rightarrow> None
                | (Inr functionResponses, w1) \<Rightarrow>
                    (case sendMessage w1 (SendFunctionResponses functionResponses) of
                       (Inl err, w2) \<Rightarrow> None
                     | (Inr response, w2) \<Rightarrow> Some (w2, response))))"

fun gemini_turns ::
  "nat \<Rightarrow> ('i, 'w) gemini_chat \<Rightarrow> ('i, 'w) executor \<Rightarrow> 'w \<times> 'i GeminiPart list option \<Rightarrow>
   ('w \<times> 'i GeminiPart list option) option"
where
  "gemini_turns 0 sendMessage exec s = Some s"
| "gemini_turns (Suc k) sendMessage exec s =
     (case gemini_turn sendMessage exec s of
        None \<Rightarrow> None
      | Some s' \<Rightarrow> gemini_turns k sendMessage exec s')"

section \<open>A world in memory and stubs\<close>

text \<open>
  A small world to run the executors in: flat files with their contents, no
  directories, and a shell whose answer to a command is given by a function. Then
  providers and executors that answer in a fixed way.
\<close>

definition enoent :: "string \<Rightarrow> js_error" where
  "enoent p =
     \<lparr>message = ''ENOENT: no such file or directory, open '' @ p,
      stdout = None, stderr = None, status = None\<rparr>"

definition mem_os :: "(string \<Rightarrow> js_error + string) \<Rightarrow> (string \<rightharpoonup> string) os" where
  "mem_os sh =
     \<lparr>path_resolve = (\<lambda>w p. Inr p),
      path_dirname = (\<lambda>p. ''.''),
      path_join = (\<lambda>a b. a @ ''/'' @ b),
      path_relative = (\<lambda>a b. drop (Suc (length a)) b),
      existsSync = (\<lambda>w p. w p \<noteq> None),
      readFileSync = (\<lambda>w p. case w p of None \<Rightarrow> Inl (enoent p) | Some c \<Rightarrow> Inr c),
      readdirSync = (\<lambda>w p. Inl (enoent p)),
      statSync_isDirectory = (\<lambda>w p. if w p = None then Inl (enoent p) else Inr False),
      writeFileSync = (\<lambda>w p c. (Inr (), w(p \<mapsto> c))),
      mkdirSync = (\<lambda>w p. (Inr (), w)),
      execSync = (\<lambda>w command options. (sh command, w))\<rparr>"

definition command_failed :: "string \<Rightarrow> string \<Rightarrow> string \<Rightarrow> js_error" where
  "command_failed command out err =
     \<lparr>message = ''Command failed: '' @ command,
      stdout = Some out, stderr = Some err, status = Some 1\<rparr>"

definition no_files :: "string \<rightharpoonup> string" where
  "no_files = Map.empty"

definition one_file :: "string \<Rightarrow> string \<Rightarrow> (string \<rightharpoonup> string)" where
  "one_file p c = [p \<mapsto> c]"

definition quiet_shell :: "string \<Rightarrow> js_error + string" where
  "quiet_shell command = Inr []"

definition failing_shell :: "string \<Rightarrow> string \<Rightarrow> string \<Rightarrow> js_error + string" where
  "failing_shell out err command = Inl (command_failed command out err)"

definition unconfigured_shell :: "string \<Rightarrow> js_error + string" where
  "unconfigured_shell command =
     (if command = ''npx tsc --noEmit 2>&1'' then Inr []
      else Inl (command_failed command ''No tests found. sh: 1: eslint: not found'' []))"

definition stub_provider :: "(unit, unit) provider" where
  "stub_provider w req = (Inr [TextBlock ''Looking.'', ToolUseBlock ''toolu_1'' ''list_files'' ()], w)"

definition stub_chat :: "(unit, unit) gemini_chat" where
  "stub_chat w m = (Inr (Some [\<lparr>part_text = None, functionCall = Some (''list_files'', ())\<rparr>]), w)"

text \<open>A chat that calls a tool in its first response and has no candidate in the next.\<close>

definition fading_chat :: "(unit, unit) gemini_chat" where
  "fading_chat w m =
     (case m of
        SendText query \<Rightarrow>
          (Inr (Some [\<lparr>part_text = None, functionCall = Some (''list_files'', ())\<rparr>]), w)
      | SendFunctionResponses functionResponses \<Rightarrow> (Inr None, w))"

definition stub_executor :: "(unit, unit) executor" where
  "stub_executor w n input = (Inr ''src/'', w)"

definition failing_provider :: "string \<Rightarrow> (unit, unit) provider" where
  "failing_provider text w req = (Inl (new_Error text), w)"

definition answering_provider :: "(unit, unit) provider" where
  "answering_provider w req =
     (if length (messages req) < 2
      then (Inr [ToolUseBlock ''toolu_1'' ''read_file'' ()], w)
      else (Inr [TextBlock ''Done.''], w))"

definition answering_openai :: "unit openai_provider" where
  "answering_openai w req =
     (if length (openai_messages req) < 3
      then (Inr [\<lparr>message_content = None,
                  tool_calls = Some [\<lparr>call_id = ''call_1'', call_name = ''read_file'',
                                      call_arguments = ''{}''\<rparr>]\<rparr>], w)
      else (Inr [\<lparr>message_content = Some ''Done.'', tool_calls = None\<rparr>], w))"


definition strict_parse :: "string \<Rightarrow> js_error + unit" where
  "strict_parse s =
     (if s = ''{}'' then Inr () else Inl (new_Error ''Unexpected end of JSON input''))"

definition three_tasks :: "SubagentTask list" where
  "three_tasks =
     [\<lparr>task_name = ''one'', task_text = ''do one'', working_directory = None\<rparr>,
      \<lparr>task_name = ''two'', task_text = ''do two'', working_directory = Some ''src''\<rparr>,
      \<lparr>task_name = ''three'', task_text = ''do three'', working_directory = None\<rparr>]"

definition second_throws :: spawned where
  "second_throws i task workingDirectory maxOutputTokens outputFormat =
     (if i = 1 then Inl (new_Error ''boom'') else Inr (''done: '' @ task))"

section \<open>Properties of the output budgeter\<close>

lemma substring_zero_take:
  "keep \<le> int (length s) \<Longrightarrow> substring s 0 keep = take (nat keep) s"
  by (auto simp: substring_def Let_def min_def max_def)

lemma substring_from_drop:
  "keep \<le> int (length s) \<Longrightarrow>
   substring_from s (int (length s) - keep) = drop (length s - nat keep) s"
  by (auto simp: substring_from_def substring_def Let_def min_def max_def nat_diff_distrib')

lemma truncateOutput_short:
  "int (length text) \<le> 4 * T \<Longrightarrow> truncateOutput text T = text"
  by (simp add: truncateOutput_def Let_def mult.commute)

lemma truncateOutput_long_eq:
  assumes "4 * T < int (length text)"
  shows "truncateOutput text T =
           head_chars text (4 * T div 2 - 50)
           @ marker (int (length text) - 4 * T)
           @ tail_chars text (4 * T div 2 - 50)"
proof -
  have keep: "4 * T div 2 - 50 \<le> int (length text)"
    using assms by linarith
  show ?thesis
    using assms substring_zero_take [OF keep] substring_from_drop [OF keep]
    by (simp add: truncateOutput_def Let_def mult.commute marker_def head_chars_def
        tail_chars_def)
qed

lemma truncateOutput_length_le:
  assumes "0 \<le> T"
  shows "int (length (truncateOutput text T))
           \<le> 4 * T + int (length (marker (int (length text) - 4 * T)))"
proof (cases "int (length text) \<le> 4 * T")
  case True
  then show ?thesis by (simp add: truncateOutput_short)
next
  case False
  then have long: "4 * T < int (length text)" by simp
  have "int (length (head_chars text (4 * T div 2 - 50))) \<le> 2 * T"
    using assms by (simp add: head_chars_def)
  moreover have "int (length (tail_chars text (4 * T div 2 - 50))) \<le> 2 * T"
    using assms by (simp add: tail_chars_def)
  ultimately show ?thesis
    by (simp add: truncateOutput_long_eq [OF long])
qed

text \<open>
  C4. For every text and token budget \<open>T\<close> with \<open>length text \<le> 4 * T\<close>,
  \<open>truncateOutput text T\<close> is the text itself, so that \<open>truncateOutput\<close> is the
  identity on these texts and applying it twice gives the same as applying it once.
\<close>

theorem truncateOutput_identity:
  "int (length text) \<le> 4 * T \<Longrightarrow>
   truncateOutput text T = text \<and>
   truncateOutput (truncateOutput text T) T = truncateOutput text T"
  by (simp add: truncateOutput_short)

theorem truncateOutput_identity_witness:
  "int (length ''Hello, World!'') \<le> 4 * 100 \<and>
   truncateOutput ''Hello, World!'' 100 = ''Hello, World!'' \<and>
   truncateOutput (truncateOutput ''Hello, World!'' 100) 100 = truncateOutput ''Hello, World!'' 100"
  using truncateOutput_identity [of "''Hello, World!''" 100] by simp

text \<open>
  C5, as the code has it. For every text longer than \<open>maxChars = 4 * T\<close>,
  \<open>truncateOutput text T\<close> is the first \<open>keep\<close> characters of the text, the marker and
  the last \<open>keep\<close> characters, where \<open>keep = floor (maxChars / 2) - 50\<close> and the marker
  states \<open>length text - maxChars\<close> removed characters; and for every text and every budget
  \<open>T \<ge> 0\<close> the result is no longer than \<open>4 * T\<close> plus the length of that marker.
\<close>

theorem truncateOutput_long:
  "(4 * T < int (length text) \<longrightarrow>
      truncateOutput text T =
        head_chars text (4 * T div 2 - 50)
        @ marker (int (length text) - 4 * T)
        @ tail_chars text (4 * T div 2 - 50)) \<and>
   (0 \<le> T \<longrightarrow>
      int (length (truncateOutput text T))
        \<le> 4 * T + int (length (marker (int (length text) - 4 * T))))"
  using truncateOutput_long_eq [of T "text"] truncateOutput_length_le [of T "text"]
  by blast

theorem truncateOutput_long_witness:
  "4 * 50 < int (length (replicate 1000 CHR ''a'')) \<and> (0::int) \<le> 50 \<and>
   truncateOutput (replicate 1000 CHR ''a'') 50 =
     head_chars (replicate 1000 CHR ''a'') (4 * 50 div 2 - 50)
     @ marker (int (length (replicate 1000 CHR ''a'')) - 4 * 50)
     @ tail_chars (replicate 1000 CHR ''a'') (4 * 50 div 2 - 50) \<and>
   int (length (truncateOutput (replicate 1000 CHR ''a'') 50))
     \<le> 4 * 50 + int (length (marker (int (length (replicate 1000 CHR ''a'')) - 4 * 50)))"
proof -
  have long: "4 * 50 < int (length (replicate 1000 CHR ''a''))" by simp
  have budget: "(0::int) \<le> 50" by simp
  from truncateOutput_long [of 50 "replicate 1000 CHR ''a''"] long budget
  show ?thesis by blast
qed

text \<open>
  The bound of C5 is stated for every budget. A negative budget is a number the source
  accepts; there the result is the bare marker, of 44 characters for a budget of -1000,
  which is longer than \<open>4 * T\<close> plus the marker, and longer than \<open>4 * T\<close> plus a
  thousand characters.
\<close>

theorem truncateOutput_bound_counterexample:
  "\<not> int (length (truncateOutput [] (- 1000)))
       \<le> 4 * (- 1000) + int (length (marker (int (length ([]::string)) - 4 * (- 1000)))) \<and>
   \<not> int (length (truncateOutput [] (- 1000))) \<le> 4 * (- 1000) + 1000 \<and>
   length (truncateOutput [] (- 1000)) = 44"
  by (simp add: truncateOutput_def marker_def substring_def substring_from_def Let_def nl_def
      show_int_def show_nat.simps)

section \<open>Properties of the feedback loops\<close>

lemma run_typescript_not_skipped: "skipped (fst (run_typescript os w d)) = None"
  by (simp add: run_typescript_def split: prod.splits sum.splits)

lemma run_tests_skipped_passed:
  "skipped (fst (run_tests os w d)) = Some True \<Longrightarrow> passed (fst (run_tests os w d))"
  by (auto simp add: run_tests_def Let_def split: prod.splits sum.splits if_splits)

lemma run_lint_skipped_passed:
  "skipped (fst (run_lint os w d)) = Some True \<Longrightarrow> passed (fst (run_lint os w d))"
  by (auto simp add: run_lint_def Let_def split: prod.splits sum.splits if_splits)

lemma runFeedbackLoops_fields:
  "typescript (fst (runFeedbackLoops os w d)) = Some (fst (run_typescript os w d))"
  "tests (fst (runFeedbackLoops os w d))
     = Some (fst (run_tests os (snd (run_typescript os w d)) d))"
  "lint (fst (runFeedbackLoops os w d))
     = Some (fst (run_lint os (snd (run_tests os (snd (run_typescript os w d)) d)) d))"
  "allPassed (fst (runFeedbackLoops os w d)) =
     (passed (fst (run_typescript os w d))
      \<and> passed (fst (run_tests os (snd (run_typescript os w d)) d))
      \<and> passed (fst (run_lint os (snd (run_tests os (snd (run_typescript os w d)) d)) d)))"
  by (simp_all add: runFeedbackLoops_def Let_def passed_or_true_def split: prod.splits)

text \<open>
  C7. For every working directory, and whatever the commands do, \<open>runFeedbackLoops\<close>
  gives a result for each of the three checks, and \<open>allPassed\<close> is true if and only if
  each of the results of typescript, tests and lint is passed or skipped: a skipped check
  never blocks \<open>allPassed\<close>.
\<close>

theorem allPassed_iff_ok:
  "typescript (fst (runFeedbackLoops os w workingDir)) \<noteq> None \<and>
   tests (fst (runFeedbackLoops os w workingDir)) \<noteq> None \<and>
   lint (fst (runFeedbackLoops os w workingDir)) \<noteq> None \<and>
   allPassed (fst (runFeedbackLoops os w workingDir)) =
     (ok (typescript (fst (runFeedbackLoops os w workingDir))) \<and>
      ok (tests (fst (runFeedbackLoops os w workingDir))) \<and>
      ok (lint (fst (runFeedbackLoops os w workingDir))))"
  using run_typescript_not_skipped [of os w workingDir]
    run_tests_skipped_passed [of os "snd (run_typescript os w workingDir)" workingDir]
    run_lint_skipped_passed
      [of os "snd (run_tests os (snd (run_typescript os w workingDir)) workingDir)" workingDir]
  by (auto simp add: runFeedbackLoops_fields ok_def is_passed_def is_skipped_def)

theorem allPassed_iff_ok_witness:
  "allPassed (fst (runFeedbackLoops (mem_os unconfigured_shell) no_files ''.'')) \<and>
   ok (tests (fst (runFeedbackLoops (mem_os unconfigured_shell) no_files ''.''))) \<and>
   is_skipped (tests (fst (runFeedbackLoops (mem_os unconfigured_shell) no_files ''.''))) \<and>
   is_skipped (lint (fst (runFeedbackLoops (mem_os unconfigured_shell) no_files ''.'')))"
proof -
  have ts: "fst (run_typescript (mem_os unconfigured_shell) no_files ''.'')
      = \<lparr>passed = True, output_text = ''No type errors'', error = None, skipped = None\<rparr>"
    and w1: "snd (run_typescript (mem_os unconfigured_shell) no_files ''.'') = no_files"
    by (simp_all add: run_typescript_def mem_os_def unconfigured_shell_def or_else_def)
  have te: "fst (run_tests (mem_os unconfigured_shell) no_files ''.'')
      = \<lparr>passed = True, output_text = ''No tests configured'', error = None,
         skipped = Some True\<rparr>"
    and w2: "snd (run_tests (mem_os unconfigured_shell) no_files ''.'') = no_files"
    by (simp_all add: run_tests_def detect_test_runner_def mem_os_def unconfigured_shell_def
        command_failed_def or_else_def or_else_opt_def string_includes_def Let_def)
  have li: "fst (run_lint (mem_os unconfigured_shell) no_files ''.'')
      = \<lparr>passed = True, output_text = ''ESLint not configured'', error = None,
         skipped = Some True\<rparr>"
    by (simp add: run_lint_def mem_os_def unconfigured_shell_def
        command_failed_def or_else_def or_else_opt_def string_includes_def Let_def)
  have oks: "ok (typescript (fst (runFeedbackLoops (mem_os unconfigured_shell) no_files ''.'')))"
    "ok (tests (fst (runFeedbackLoops (mem_os unconfigured_shell) no_files ''.'')))"
    "ok (lint (fst (runFeedbackLoops (mem_os unconfigured_shell) no_files ''.'')))"
    "is_skipped (tests (fst (runFeedbackLoops (mem_os unconfigured_shell) no_files ''.'')))"
    "is_skipped (lint (fst (runFeedbackLoops (mem_os unconfigured_shell) no_files ''.'')))"
    by (simp_all add: runFeedbackLoops_fields ts w1 te w2 li ok_def is_passed_def is_skipped_def)
  with allPassed_iff_ok [of "mem_os unconfigured_shell" no_files "''.''"]
  show ?thesis by blast
qed

section \<open>Properties of the executors\<close>

lemma editFile_returns: "\<exists>s w'. editFile os w filePath oldStr newStr = (Inr s, w')"
  by (simp add: editFile_def split: prod.splits sum.splits)

lemma bash_returns: "\<exists>s w'. bash os w command timeout_ms = (Inr s, w')"
  by (simp add: bash_def Let_def split: prod.splits sum.splits)

lemma bash_on_failure:
  assumes "execSync os w command
             \<lparr>cwd = None, timeout = Some timeout_ms, maxBuffer = Some (10 * 1024 * 1024)\<rparr>
           = (Inl err, w')"
  shows "bash os w command timeout_ms =
           (Inr (let out = (case stdout err of None \<Rightarrow> [] | Some s \<Rightarrow> s);
                     errs = (case stderr err of None \<Rightarrow> [] | Some s \<Rightarrow> s)
                 in if out = [] \<and> errs = [] then ''Error: '' @ message err
                    else if errs = [] then out
                    else out @ nl @ ''STDERR: '' @ errs),
            w')"
  using assms
  by (simp add: bash_def Let_def or_else_def or_else_opt_def nl_def split: option.splits)

lemma readFile_result:
  "(\<exists>s. readFile os w filePath = Inr s) \<and>
   (\<forall>absolutePath text.
      path_resolve os w filePath = Inr absolutePath \<and> readFileSync os w absolutePath = Inr text \<longrightarrow>
      readFile os w filePath = Inr text) \<and>
   (\<forall>err.
      path_resolve os w filePath = Inl err \<or>
      (\<exists>absolutePath. path_resolve os w filePath = Inr absolutePath
         \<and> readFileSync os w absolutePath = Inl err) \<longrightarrow>
      readFile os w filePath = Inr (''Error reading file: '' @ message err))"
  by (auto simp add: readFile_def split: sum.splits)

lemma listFiles_result:
  "(\<exists>s. listFiles os w dirPath = Inr s) \<and>
   (\<forall>absolutePath results.
      path_resolve os w dirPath = Inr absolutePath
      \<and> walk os w absolutePath absolutePath 0 = Inr results \<longrightarrow>
      listFiles os w dirPath
        = Inr (if join nl results = [] then ''No files found'' else join nl results)) \<and>
   (\<forall>err.
      path_resolve os w dirPath = Inl err \<or>
      (\<exists>absolutePath. path_resolve os w dirPath = Inr absolutePath
         \<and> walk os w absolutePath absolutePath 0 = Inl err) \<longrightarrow>
      listFiles os w dirPath = Inr (''Error listing files: '' @ message err))"
  by (auto simp add: listFiles_def or_else_def split: sum.splits)

lemma codeSearch_result:
  "(\<exists>s w'. codeSearch os w pattern searchPath fileType caseSensitive = (Inr s, w')) \<and>
   (\<forall>result w1.
      execSync os w (rg_command pattern searchPath fileType caseSensitive)
        \<lparr>cwd = None, timeout = None, maxBuffer = Some (10 * 1024 * 1024)\<rparr> = (Inr result, w1) \<longrightarrow>
      codeSearch os w pattern searchPath fileType caseSensitive
        = (Inr (if result = [] then ''No matches found'' else result), w1)) \<and>
   (\<forall>thrown w1.
      execSync os w (rg_command pattern searchPath fileType caseSensitive)
        \<lparr>cwd = None, timeout = None, maxBuffer = Some (10 * 1024 * 1024)\<rparr> = (Inl thrown, w1) \<longrightarrow>
      (\<forall>result w2.
         execSync os w1 (grep_command pattern searchPath fileType caseSensitive)
           \<lparr>cwd = None, timeout = None, maxBuffer = Some (10 * 1024 * 1024)\<rparr> = (Inr result, w2) \<longrightarrow>
         codeSearch os w pattern searchPath fileType caseSensitive
           = (Inr (if result = [] then ''No matches found'' else result), w2)) \<and>
      (\<forall>err w2.
         execSync os w1 (grep_command pattern searchPath fileType caseSensitive)
           \<lparr>cwd = None, timeout = None, maxBuffer = Some (10 * 1024 * 1024)\<rparr> = (Inl err, w2) \<longrightarrow>
         codeSearch os w pattern searchPath fileType caseSensitive
           = (Inr (if status err = Some 1 then ''No matches found''
                   else ''Search error: '' @ message err), w2)))"
  by (auto simp add: codeSearch_def rg_command_def grep_command_def Let_def or_else_def
      split: prod.splits sum.splits)

lemma editFile_try_messages:
  assumes "editFile_try os w filePath oldStr newStr = (Inr s, w')"
  shows "s = ''Created new file: '' @ filePath \<or>
         s = ''Replaced entire file: '' @ filePath \<or>
         s = ''Successfully edited '' @ filePath \<or>
         s = ''Error: File not found: '' @ filePath \<or>
         s = ''Error: Could not find the specified text in '' @ filePath
             @ ''. Make sure the old_str matches exactly.'' \<or>
         (\<exists>matches. 1 < matches \<and>
            s = ''Error: Found '' @ show_int matches
                @ '' matches for the specified text. Please use a more specific string to avoid ambiguity.'')"
proof -
  define shape where "shape t \<longleftrightarrow>
        (t = ''Created new file: '' @ filePath \<or>
         t = ''Replaced entire file: '' @ filePath \<or>
         t = ''Successfully edited '' @ filePath \<or>
         t = ''Error: File not found: '' @ filePath \<or>
         t = ''Error: Could not find the specified text in '' @ filePath
             @ ''. Make sure the old_str matches exactly.'' \<or>
         (\<exists>matches. 1 < matches \<and>
            t = ''Error: Found '' @ show_int matches
                @ '' matches for the specified text. Please use a more specific string to avoid ambiguity.''))"
    for t
  have created: "shape (''Created new file: '' @ filePath)"
    unfolding shape_def by (rule disjI1) (rule refl)
  have replaced: "shape (''Replaced entire file: '' @ filePath)"
    unfolding shape_def by (rule disjI2, rule disjI1) (rule refl)
  have edited: "shape (''Successfully edited '' @ filePath)"
    unfolding shape_def by (rule disjI2, rule disjI2, rule disjI1) (rule refl)
  have missing: "shape (''Error: File not found: '' @ filePath)"
    unfolding shape_def by (rule disjI2, rule disjI2, rule disjI2, rule disjI1) (rule refl)
  have absent: "shape (''Error: Could not find the specified text in '' @ filePath
             @ ''. Make sure the old_str matches exactly.'')"
    unfolding shape_def
    by (rule disjI2, rule disjI2, rule disjI2, rule disjI2, rule disjI1) (rule refl)
  have many: "shape (''Error: Found '' @ show_int matches
                @ '' matches for the specified text. Please use a more specific string to avoid ambiguity.'')"
    if "1 < matches" for matches
    unfolding shape_def
    by (rule disjI2, rule disjI2, rule disjI2, rule disjI2, rule disjI2, rule exI [of _ matches],
        rule conjI, rule that, rule refl)
  have "shape s"
  proof (cases "path_resolve os w filePath")
    case (Inl err)
    with assms show ?thesis by (simp add: editFile_try_def)
  next
    case (Inr absolutePath)
    show ?thesis
    proof (cases "existsSync os w absolutePath")
      case False
      show ?thesis
      proof (cases "oldStr = []")
        case True
        with assms Inr False have "s = ''Created new file: '' @ filePath"
          by (auto simp add: editFile_try_def Let_def split: prod.splits sum.splits)
        with created show ?thesis by simp
      next
        case nonempty: False
        with assms Inr False have "s = ''Error: File not found: '' @ filePath"
          by (simp add: editFile_try_def)
        with missing show ?thesis by simp
      qed
    next
      case True
      show ?thesis
      proof (cases "readFileSync os w absolutePath")
        case (Inl err)
        with assms Inr True show ?thesis by (simp add: editFile_try_def)
      next
        case current: (Inr current)
        show ?thesis
        proof (cases "oldStr = []")
          case empty: True
          with assms Inr True current have "s = ''Replaced entire file: '' @ filePath"
            by (auto simp add: editFile_try_def split: prod.splits sum.splits)
          with replaced show ?thesis by simp
        next
          case nonempty: False
          show ?thesis
          proof (cases "string_includes current oldStr")
            case False
            with assms Inr True current nonempty
            have "s = ''Error: Could not find the specified text in '' @ filePath
                      @ ''. Make sure the old_str matches exactly.''"
              by (simp add: editFile_try_def)
            with absent show ?thesis by simp
          next
            case occurs: True
            show ?thesis
            proof (cases "1 < int (length (split current oldStr)) - 1")
              case True
              with assms Inr \<open>existsSync os w absolutePath\<close> current nonempty occurs
              have "s = ''Error: Found '' @ show_int (int (length (split current oldStr)) - 1)
                  @ '' matches for the specified text. Please use a more specific string to avoid ambiguity.''"
                by (simp add: editFile_try_def Let_def)
              with many [OF True] show ?thesis by simp
            next
              case False
              with assms Inr \<open>existsSync os w absolutePath\<close> current nonempty occurs
              have "s = ''Successfully edited '' @ filePath"
                by (auto simp add: editFile_try_def Let_def split: prod.splits sum.splits)
              with edited show ?thesis by simp
            qed
          qed
        qed
      qed
    qed
  qed
  then show ?thesis unfolding shape_def .
qed

lemma editFile_result:
  "(\<exists>s w'. editFile os w filePath oldStr newStr = (Inr s, w')) \<and>
   (\<forall>s w'.
      editFile_try os w filePath oldStr newStr = (Inr s, w') \<longrightarrow>
      editFile os w filePath oldStr newStr = (Inr s, w') \<and>
      (s = ''Created new file: '' @ filePath \<or>
       s = ''Replaced entire file: '' @ filePath \<or>
       s = ''Successfully edited '' @ filePath \<or>
       s = ''Error: File not found: '' @ filePath \<or>
       s = ''Error: Could not find the specified text in '' @ filePath
           @ ''. Make sure the old_str matches exactly.'' \<or>
       (\<exists>matches. 1 < matches \<and>
          s = ''Error: Found '' @ show_int matches
              @ '' matches for the specified text. Please use a more specific string to avoid ambiguity.''))) \<and>
   (\<forall>err w'.
      editFile_try os w filePath oldStr newStr = (Inl err, w') \<longrightarrow>
      editFile os w filePath oldStr newStr = (Inr (''Error editing file: '' @ message err), w'))"
proof (intro conjI allI impI)
  show "\<exists>s w'. editFile os w filePath oldStr newStr = (Inr s, w')"
    by (rule editFile_returns)
next
  fix s w'
  assume "editFile_try os w filePath oldStr newStr = (Inr s, w')"
  then show "editFile os w filePath oldStr newStr = (Inr s, w')"
    by (simp add: editFile_def)
next
  fix s w'
  assume "editFile_try os w filePath oldStr newStr = (Inr s, w')"
  then show "s = ''Created new file: '' @ filePath \<or>
       s = ''Replaced entire file: '' @ filePath \<or>
       s = ''Successfully edited '' @ filePath \<or>
       s = ''Error: File not found: '' @ filePath \<or>
       s = ''Error: Could not find the specified text in '' @ filePath
           @ ''. Make sure the old_str matches exactly.'' \<or>
       (\<exists>matches. 1 < matches \<and>
          s = ''Error: Found '' @ show_int matches
              @ '' matches for the specified text. Please use a more specific string to avoid ambiguity.'')"
    by (rule editFile_try_messages)
next
  fix err w'
  assume "editFile_try os w filePath oldStr newStr = (Inl err, w')"
  then show "editFile os w filePath oldStr newStr = (Inr (''Error editing file: '' @ message err), w')"
    by (simp add: editFile_def)
qed

lemma bash_result:
  "(\<exists>s w'. bash os w command timeout_ms = (Inr s, w')) \<and>
   (\<forall>result w'.
      execSync os w command
        \<lparr>cwd = None, timeout = Some timeout_ms, maxBuffer = Some (10 * 1024 * 1024)\<rparr>
        = (Inr result, w') \<longrightarrow>
      bash os w command timeout_ms
        = (Inr (if result = [] then ''Command completed (no output)'' else result), w')) \<and>
   (\<forall>err w'.
      execSync os w command
        \<lparr>cwd = None, timeout = Some timeout_ms, maxBuffer = Some (10 * 1024 * 1024)\<rparr>
        = (Inl err, w') \<longrightarrow>
      bash os w command timeout_ms
        = (Inr (let out = (case stdout err of None \<Rightarrow> [] | Some s \<Rightarrow> s);
                    errs = (case stderr err of None \<Rightarrow> [] | Some s \<Rightarrow> s)
                in if out = [] \<and> errs = [] then ''Error: '' @ message err
                   else if errs = [] then out
                   else out @ nl @ ''STDERR: '' @ errs),
           w'))"
  using bash_returns [of os w command timeout_ms] bash_on_failure [of os w command timeout_ms]
  by (auto simp add: bash_def or_else_def)

text \<open>
  C8, as the code has it. For every input and every behaviour of the file system and the
  shell, each of \<open>readFile\<close>, \<open>listFiles\<close>, \<open>codeSearch\<close>, \<open>editFile\<close> and \<open>bash\<close>
  returns a string and never throws. \<open>readFile\<close> returns the content of the file, or
  \<open>Error reading file:\<close> with the message of what was thrown. \<open>listFiles\<close> returns the
  lines of the listing, \<open>No files found\<close> when they are empty, or \<open>Error listing files:\<close>
  with the message. \<open>codeSearch\<close> returns the output of ripgrep, or of grep when ripgrep
  fails, \<open>No matches found\<close> when that output is empty or grep fails with status 1, and
  \<open>Search error:\<close> with the message when grep fails otherwise. \<open>editFile\<close> returns one
  of the six messages of its \<open>try\<close> block, or \<open>Error editing file:\<close> with the message
  of what was thrown there. \<open>bash\<close> returns the output of the command, or
  \<open>Command completed (no output)\<close> when it is empty. When the command fails, \<open>bash\<close>
  returns its standard output, followed by a line \<open>STDERR:\<close> with its standard error
  when there is error output; when both are empty it returns \<open>Error:\<close> with the
  message of the failure.
\<close>

theorem executors_return_strings:
  "((\<exists>s. readFile os w filePath = Inr s) \<and>
    (\<forall>absolutePath text.
       path_resolve os w filePath = Inr absolutePath \<and> readFileSync os w absolutePath = Inr text \<longrightarrow>
       readFile os w filePath = Inr text) \<and>
    (\<forall>err.
       path_resolve os w filePath = Inl err \<or>
       (\<exists>absolutePath. path_resolve os w filePath = Inr absolutePath
          \<and> readFileSync os w absolutePath = Inl err) \<longrightarrow>
       readFile os w filePath = Inr (''Error reading file: '' @ message err))) \<and>
   ((\<exists>s. listFiles os w dirPath = Inr s) \<and>
    (\<forall>absolutePath results.
       path_resolve os w dirPath = Inr absolutePath
       \<and> walk os w absolutePath absolutePath 0 = Inr results \<longrightarrow>
       listFiles os w dirPath
         = Inr (if join nl results = [] then ''No files found'' else join nl results)) \<and>
    (\<forall>err.
       path_resolve os w dirPath = Inl err \<or>
       (\<exists>absolutePath. path_resolve os w dirPath = Inr absolutePath
          \<and> walk os w absolutePath absolutePath 0 = Inl err) \<longrightarrow>
       listFiles os w dirPath = Inr (''Error listing files: '' @ message err))) \<and>
   ((\<exists>s w'. codeSearch os w pattern searchPath fileType caseSensitive = (Inr s, w')) \<and>
    (\<forall>result w1.
       execSync os w (rg_command pattern searchPath fileType caseSensitive)
         \<lparr>cwd = None, timeout = None, maxBuffer = Some (10 * 1024 * 1024)\<rparr> = (Inr result, w1) \<longrightarrow>
       codeSearch os w pattern searchPath fileType caseSensitive
         = (Inr (if result = [] then ''No matches found'' else result), w1)) \<and>
    (\<forall>thrown w1.
       execSync os w (rg_command pattern searchPath fileType caseSensitive)
         \<lparr>cwd = None, timeout = None, maxBuffer = Some (10 * 1024 * 1024)\<rparr> = (Inl thrown, w1) \<longrightarrow>
       (\<forall>result w2.
          execSync os w1 (grep_command pattern searchPath fileType caseSensitive)
            \<lparr>cwd = None, timeout = None, maxBuffer = Some (10 * 1024 * 1024)\<rparr> = (Inr result, w2) \<longrightarrow>
          codeSearch os w pattern searchPath fileType caseSensitive
            = (Inr (if result = [] then ''No matches found'' else result), w2)) \<and>
       (\<forall>err w2.
          execSync os w1 (grep_command pattern searchPath fileType caseSensitive)
            \<lparr>cwd = None, timeout = None, maxBuffer = Some (10 * 1024 * 1024)\<rparr> = (Inl err, w2) \<longrightarrow>
          codeSearch os w pattern searchPath fileType caseSensitive
            = (Inr (if status err = Some 1 then ''No matches found''
                    else ''Search error: '' @ message err), w2)))) \<and>
   ((\<exists>s w'. editFile os w filePath oldStr newStr = (Inr s, w')) \<and>
    (\<forall>s w'.
       editFile_try os w filePath oldStr newStr = (Inr s, w') \<longrightarrow>
       editFile os w filePath oldStr newStr = (Inr s, w') \<and>
       (s = ''Created new file: '' @ filePath \<or>
        s = ''Replaced entire file: '' @ filePath \<or>
        s = ''Successfully edited '' @ filePath \<or>
        s = ''Error: File not found: '' @ filePath \<or>
        s = ''Error: Could not find the specified text in '' @ filePath
            @ ''. Make sure the old_str matches exactly.'' \<or>
        (\<exists>matches. 1 < matches \<and>
           s = ''Error: Found '' @ show_int matches
               @ '' matches for the specified text. Please use a more specific string to avoid ambiguity.''))) \<and>
    (\<forall>err w'.
       editFile_try os w filePath oldStr newStr = (Inl err, w') \<longrightarrow>
       editFile os w filePath oldStr newStr = (Inr (''Error editing file: '' @ message err), w'))) \<and>
   ((\<exists>s w'. bash os w command timeout_ms = (Inr s, w')) \<and>
    (\<forall>result w'.
       execSync os w command
         \<lparr>cwd = None, timeout = Some timeout_ms, maxBuffer = Some (10 * 1024 * 1024)\<rparr>
         = (Inr result, w') \<longrightarrow>
       bash os w command timeout_ms
         = (Inr (if result = [] then ''Command completed (no output)'' else result), w')) \<and>
    (\<forall>err w'.
       execSync os w command
         \<lparr>cwd = None, timeout = Some timeout_ms, maxBuffer = Some (10 * 1024 * 1024)\<rparr>
         = (Inl err, w') \<longrightarrow>
       bash os w command timeout_ms
         = (Inr (let out = (case stdout err of None \<Rightarrow> [] | Some s \<Rightarrow> s);
                     errs = (case stderr err of None \<Rightarrow> [] | Some s \<Rightarrow> s)
                 in if out = [] \<and> errs = [] then ''Error: '' @ message err
                    else if errs = [] then out
                    else out @ nl @ ''STDERR: '' @ errs),
            w')))"
  apply (rule conjI)
  subgoal by (rule readFile_result)
  apply (rule conjI)
  subgoal by (rule listFiles_result)
  apply (rule conjI)
  subgoal by (rule codeSearch_result)
  apply (rule conjI)
  subgoal by (rule editFile_result)
  subgoal by (rule bash_result)
  done

theorem executors_return_strings_witness:
  "execSync (mem_os (failing_shell ''compiling'' ''make: no rule'')) no_files ''make''
     \<lparr>cwd = None, timeout = Some 30000, maxBuffer = Some (10 * 1024 * 1024)\<rparr>
     = (Inl (command_failed ''make'' ''compiling'' ''make: no rule''), no_files) \<and>
   bash (mem_os (failing_shell ''compiling'' ''make: no rule'')) no_files ''make'' 30000
     = (Inr (''compiling'' @ nl @ ''STDERR: '' @ ''make: no rule''), no_files) \<and>
   path_resolve (mem_os (failing_shell ''compiling'' ''make: no rule'')) no_files ''a.txt''
     = Inr ''a.txt'' \<and>
   readFileSync (mem_os (failing_shell ''compiling'' ''make: no rule'')) no_files ''a.txt''
     = Inl (enoent ''a.txt'') \<and>
   readFile (mem_os (failing_shell ''compiling'' ''make: no rule'')) no_files ''a.txt''
     = Inr ''Error reading file: ENOENT: no such file or directory, open a.txt''"
proof -
  note all = executors_return_strings [of "mem_os (failing_shell ''compiling'' ''make: no rule'')"
      no_files "''a.txt''" _ _ _ _ _ _ _ "''make''" 30000]
  have failed: "execSync (mem_os (failing_shell ''compiling'' ''make: no rule'')) no_files ''make''
      \<lparr>cwd = None, timeout = Some 30000, maxBuffer = Some (10 * 1024 * 1024)\<rparr>
      = (Inl (command_failed ''make'' ''compiling'' ''make: no rule''), no_files)"
    by (simp add: mem_os_def failing_shell_def)
  have resolved: "path_resolve (mem_os (failing_shell ''compiling'' ''make: no rule'')) no_files
      ''a.txt'' = Inr ''a.txt''"
    by (simp add: mem_os_def)
  have missing: "readFileSync (mem_os (failing_shell ''compiling'' ''make: no rule'')) no_files
      ''a.txt'' = Inl (enoent ''a.txt'')"
    by (simp add: mem_os_def no_files_def)
  from all [THEN conjunct2, THEN conjunct2, THEN conjunct2, THEN conjunct2, THEN conjunct2,
      THEN conjunct2, rule_format, OF failed]
  have shell: "bash (mem_os (failing_shell ''compiling'' ''make: no rule'')) no_files ''make'' 30000
      = (Inr (''compiling'' @ nl @ ''STDERR: '' @ ''make: no rule''), no_files)"
    by (simp add: command_failed_def)
  from all [THEN conjunct1, THEN conjunct2, THEN conjunct2, rule_format, of "enoent ''a.txt''"]
    resolved missing
  have "readFile (mem_os (failing_shell ''compiling'' ''make: no rule'')) no_files ''a.txt''
      = Inr (''Error reading file: '' @ message (enoent ''a.txt''))"
    by blast
  then have unread: "readFile (mem_os (failing_shell ''compiling'' ''make: no rule'')) no_files
      ''a.txt'' = Inr ''Error reading file: ENOENT: no such file or directory, open a.txt''"
    by (simp add: enoent_def)
  from failed shell resolved missing unread show ?thesis by blast
qed

text \<open>
  C8 has \<open>bash\<close> return the combined standard output and standard error of a command
  that exits with a non-zero status. For a command that fails without any output both
  are empty, and \<open>bash\<close> returns \<open>Error:\<close> with the message of the failure.
\<close>

theorem bash_output_counterexample:
  "execSync (mem_os (failing_shell [] [])) no_files ''false''
     \<lparr>cwd = None, timeout = Some 30000, maxBuffer = Some (10 * 1024 * 1024)\<rparr>
     = (Inl \<lparr>message = ''Command failed: false'', stdout = Some [], stderr = Some [],
             status = Some 1\<rparr>, no_files) \<and>
   bash (mem_os (failing_shell [] [])) no_files ''false'' 30000
     = (Inr ''Error: Command failed: false'', no_files) \<and>
   bash (mem_os (failing_shell [] [])) no_files ''false'' 30000 \<noteq> (Inr ([] @ []), no_files)"
  by (simp add: bash_def mem_os_def failing_shell_def command_failed_def or_else_def
      or_else_opt_def Let_def)

section \<open>Occurrences and the count taken by editFile\<close>

lemma startsWith_length: "startsWith s p \<Longrightarrow> length p \<le> length s"
  by (induction s p rule: startsWith.induct) auto

lemma indexOf_bound: "indexOf s p = Some i \<Longrightarrow> i + length p \<le> length s"
proof (induction s arbitrary: i)
  case Nil
  then show ?case by (simp split: if_splits)
next
  case (Cons c cs)
  then show ?case
    using startsWith_length [of "c # cs" p] by (auto split: if_splits)
qed

lemma indexOf_None_iff:
  "indexOf s p = None \<longleftrightarrow> (\<forall>i \<le> length s. \<not> startsWith (drop i s) p)"
proof (induction s)
  case Nil
  then show ?case by (cases p) auto
next
  case (Cons c cs)
  show ?case
  proof (cases "startsWith (c # cs) p")
    case True
    then have "\<exists>i \<le> length (c # cs). startsWith (drop i (c # cs)) p"
      by (intro exI [of _ 0]) simp
    with True show ?thesis by auto
  next
    case False
    have "(\<forall>i \<le> length (c # cs). \<not> startsWith (drop i (c # cs)) p)
        \<longleftrightarrow> (\<forall>i \<le> length cs. \<not> startsWith (drop i cs) p)"
    proof
      assume all: "\<forall>i \<le> length (c # cs). \<not> startsWith (drop i (c # cs)) p"
      show "\<forall>i \<le> length cs. \<not> startsWith (drop i cs) p"
      proof (intro allI impI)
        fix i assume "i \<le> length cs"
        with all have "\<not> startsWith (drop (Suc i) (c # cs)) p" by (metis Suc_le_mono length_Cons)
        then show "\<not> startsWith (drop i cs) p" by simp
      qed
    next
      assume all: "\<forall>i \<le> length cs. \<not> startsWith (drop i cs) p"
      show "\<forall>i \<le> length (c # cs). \<not> startsWith (drop i (c # cs)) p"
      proof (intro allI impI)
        fix i assume "i \<le> length (c # cs)"
        with all False show "\<not> startsWith (drop i (c # cs)) p" by (cases i) auto
      qed
    qed
    with False Cons.IH show ?thesis by simp
  qed
qed

lemma indexOf_Some_starts:
  "indexOf s p = Some i \<Longrightarrow> startsWith (drop i s) p \<and> i \<le> length s"
proof (induction s arbitrary: i)
  case Nil
  then show ?case by (auto split: if_splits)
next
  case (Cons c cs)
  then show ?case by (auto split: if_splits)
qed

lemma occurrences_card:
  "occurrences s p = card {i. i \<le> length s \<and> startsWith (drop i s) p}"
proof -
  have "{x. startsWith (drop x s) p} \<inter> set [0..<Suc (length s)]
      = {i. i \<le> length s \<and> startsWith (drop i s) p}"
    by auto
  then show ?thesis
    by (simp add: occurrences_def distinct_length_filter del: upt_Suc)
qed

lemma occurrences_zero_iff: "occurrences s p = 0 \<longleftrightarrow> \<not> string_includes s p"
proof -
  have "finite {i. i \<le> length s \<and> startsWith (drop i s) p}" by simp
  then show ?thesis
    by (auto simp add: occurrences_card string_includes_def indexOf_None_iff)
qed

lemma two_occurrences:
  assumes "i \<le> length s" "startsWith (drop i s) p"
    and "j \<le> length s" "startsWith (drop j s) p" and "i \<noteq> j"
  shows "2 \<le> occurrences s p"
proof -
  have "{i, j} \<subseteq> {i. i \<le> length s \<and> startsWith (drop i s) p}" using assms by simp
  moreover have "finite {i. i \<le> length s \<and> startsWith (drop i s) p}" by simp
  ultimately have "card {i, j} \<le> occurrences s p"
    unfolding occurrences_card by (rule card_mono [rotated])
  with assms(5) show ?thesis by simp
qed

lemma single_occurrence_split:
  assumes "occurrences s p = 1" and "p \<noteq> []"
  shows "length (split s p) = 2"
proof -
  from assms(1) have "string_includes s p" using occurrences_zero_iff [of s p] by simp
  then obtain i where found: "indexOf s p = Some i" by (auto simp add: string_includes_def)
  then have at: "startsWith (drop i s) p" "i \<le> length s" using indexOf_Some_starts by blast+
  have bound: "i + length p \<le> length s" using found by (rule indexOf_bound)
  have "indexOf (drop (i + length p) s) p = None"
  proof (rule ccontr)
    assume "indexOf (drop (i + length p) s) p \<noteq> None"
    then obtain k where "indexOf (drop (i + length p) s) p = Some k" by auto
    then have "startsWith (drop k (drop (i + length p) s)) p"
      and "k \<le> length (drop (i + length p) s)"
      using indexOf_Some_starts by blast+
    then have "startsWith (drop (i + length p + k) s) p" and "i + length p + k \<le> length s"
      using bound by (simp_all add: add.commute)
    moreover have "i \<noteq> i + length p + k" using assms(2) by simp
    ultimately have "2 \<le> occurrences s p" using at two_occurrences by blast
    with assms(1) show False by simp
  qed
  then have "split (drop (i + length p) s) p = [drop (i + length p) s]"
    using assms(2) by (subst split.simps) simp
  then show ?thesis
    using found assms(2) by (subst split.simps) simp
qed

lemma editFile_existing:
  assumes "path_resolve os w filePath = Inr absolutePath"
    and "existsSync os w absolutePath"
    and "readFileSync os w absolutePath = Inr current"
    and "oldStr \<noteq> []"
  shows "editFile os w filePath oldStr newStr =
           (if \<not> string_includes current oldStr then
              (Inr (''Error: Could not find the specified text in '' @ filePath
                    @ ''. Make sure the old_str matches exactly.''), w)
            else if 2 < length (split current oldStr) then
              (Inr (''Error: Found '' @ show_int (int (length (split current oldStr)) - 1)
                    @ '' matches for the specified text. Please use a more specific string to avoid ambiguity.''),
               w)
            else
              (case writeFileSync os w absolutePath (replace current oldStr newStr) of
                 (Inl err, w1) \<Rightarrow> (Inr (''Error editing file: '' @ message err), w1)
               | (Inr u, w1) \<Rightarrow> (Inr (''Successfully edited '' @ filePath), w1)))"
  using assms
  by (auto simp add: editFile_def editFile_try_def Let_def split: prod.splits sum.splits)

text \<open>
  For an existing file and a non-empty \<open>old_str\<close>: when \<open>old_str\<close> does not occur,
  \<open>editFile\<close> returns an error and leaves the world as it is; when it occurs exactly
  once, the file is written with the replacement; when splitting the content at
  \<open>old_str\<close> gives more than two pieces, \<open>editFile\<close> returns an error and leaves the
  world as it is.
\<close>

lemma editFile_by_occurrences:
  assumes "path_resolve os w filePath = Inr absolutePath"
    and "existsSync os w absolutePath"
    and "readFileSync os w absolutePath = Inr current"
    and "oldStr \<noteq> []"
  shows "occurrences current oldStr = 0 \<Longrightarrow>
           editFile os w filePath oldStr newStr =
             (Inr (''Error: Could not find the specified text in '' @ filePath
                   @ ''. Make sure the old_str matches exactly.''), w)"
    and "occurrences current oldStr = 1 \<Longrightarrow>
           editFile os w filePath oldStr newStr =
             (case writeFileSync os w absolutePath (replace current oldStr newStr) of
                (Inl err, w1) \<Rightarrow> (Inr (''Error editing file: '' @ message err), w1)
              | (Inr u, w1) \<Rightarrow> (Inr (''Successfully edited '' @ filePath), w1))"
    and "2 < length (split current oldStr) \<Longrightarrow>
           editFile os w filePath oldStr newStr =
             (Inr (''Error: Found '' @ show_int (int (length (split current oldStr)) - 1)
                   @ '' matches for the specified text. Please use a more specific string to avoid ambiguity.''),
              w)"
proof -
  note existing = editFile_existing [OF assms, of newStr]
  show "occurrences current oldStr = 0 \<Longrightarrow>
           editFile os w filePath oldStr newStr =
             (Inr (''Error: Could not find the specified text in '' @ filePath
                   @ ''. Make sure the old_str matches exactly.''), w)"
    using existing by (simp add: occurrences_zero_iff)
  show "occurrences current oldStr = 1 \<Longrightarrow>
           editFile os w filePath oldStr newStr =
             (case writeFileSync os w absolutePath (replace current oldStr newStr) of
                (Inl err, w1) \<Rightarrow> (Inr (''Error editing file: '' @ message err), w1)
              | (Inr u, w1) \<Rightarrow> (Inr (''Successfully edited '' @ filePath), w1))"
    using existing single_occurrence_split [OF _ assms(4), of current]
      occurrences_zero_iff [of current oldStr]
    by simp
  show "2 < length (split current oldStr) \<Longrightarrow>
           editFile os w filePath oldStr newStr =
             (Inr (''Error: Found '' @ show_int (int (length (split current oldStr)) - 1)
                   @ '' matches for the specified text. Please use a more specific string to avoid ambiguity.''),
              w)"
  proof -
    assume many: "2 < length (split current oldStr)"
    have "string_includes current oldStr"
    proof (rule ccontr)
      assume "\<not> string_includes current oldStr"
      then have "split current oldStr = [current]"
        using assms(4) by (subst split.simps) (simp add: string_includes_def)
      with many show False by simp
    qed
    with many existing show ?thesis by simp
  qed
qed

text \<open>
  C10 at an input where the occurrences overlap: \<open>aa\<close> occurs twice in \<open>aaa\<close>, at
  the positions 0 and 1, but splitting \<open>aaa\<close> at \<open>aa\<close> gives two pieces, which
  \<open>editFile\<close> counts as one match. The file is written, with the first occurrence
  replaced, where C10 has an error and an unchanged file.
\<close>

theorem editFile_overlapping_occurrences:
  "occurrences ''aaa'' ''aa'' = 2 \<and>
   editFile (mem_os quiet_shell) (one_file ''f'' ''aaa'') ''f'' ''aa'' ''b''
     = (Inr ''Successfully edited f'', one_file ''f'' ''ba'')"
  by (simp add: occurrences_def upt_rec editFile_def editFile_try_def mem_os_def one_file_def
      string_includes_def split.simps replace_def)

section \<open>Properties of parallel subagents\<close>

lemma parallel_results_length: "length (parallel_results spawned tasks T) = length tasks"
  by (simp add: parallel_results_def)

lemma parallel_results_nth:
  "i < length tasks \<Longrightarrow>
   parallel_results spawned tasks T ! i = settle spawned T (i, tasks ! i)"
  by (simp add: parallel_results_def nth_enumerate_eq)

text \<open>
  C2. For every list of tasks there is exactly one result and one section per task, in
  the order of the tasks: the result at position \<open>i\<close> carries the name of the task at
  position \<open>i\<close>, its section is \<open>## name\<close> followed by the text of the result, and the
  aggregate returned is the sections joined in that order. When the call of \<open>spawn\<close> for
  a task throws, the result of that task is marked failed and its text is \<open>Error:\<close> with
  the message; otherwise it is marked succeeded with the answer of the call. The result
  of a task depends on the call made for that task only, whatever the calls for the
  other tasks do.
\<close>

theorem parallel_sections:
  "length (parallel_results spawned tasks T) = length tasks \<and>
   length (formattedResults (parallel_results spawned tasks T)) = length tasks \<and>
   runParallelSubagents spawned tasks T
     = join (nl @ nl @ ''---'' @ nl @ nl) (formattedResults (parallel_results spawned tasks T)) \<and>
   (\<forall>i < length tasks.
      result_name (parallel_results spawned tasks T ! i) = task_name (tasks ! i) \<and>
      formattedResults (parallel_results spawned tasks T) ! i
        = ''## '' @ task_name (tasks ! i) @ nl @ result_text (parallel_results spawned tasks T ! i) \<and>
      (\<forall>answer.
         spawned i (task_text (tasks ! i)) (or_else_opt (working_directory (tasks ! i)) ''.'') T
           ''summary'' = Inr answer \<longrightarrow>
         success (parallel_results spawned tasks T ! i) \<and>
         result_text (parallel_results spawned tasks T ! i) = answer) \<and>
      (\<forall>err.
         spawned i (task_text (tasks ! i)) (or_else_opt (working_directory (tasks ! i)) ''.'') T
           ''summary'' = Inl err \<longrightarrow>
         \<not> success (parallel_results spawned tasks T ! i) \<and>
         result_text (parallel_results spawned tasks T ! i) = ''Error: '' @ message err) \<and>
      (\<forall>spawned'. spawned' i = spawned i \<longrightarrow>
         parallel_results spawned' tasks T ! i = parallel_results spawned tasks T ! i))"
  by (auto simp add: parallel_results_length parallel_results_nth formattedResults_def
      runParallelSubagents_def settle_def split: sum.splits)

theorem parallel_sections_witness:
  "(1::nat) < length three_tasks \<and>
   second_throws 1 (task_text (three_tasks ! 1))
       (or_else_opt (working_directory (three_tasks ! 1)) ''.'') 1000 ''summary''
     = Inl (new_Error ''boom'') \<and>
   result_name (parallel_results second_throws three_tasks 1000 ! 1) = ''two'' \<and>
   \<not> success (parallel_results second_throws three_tasks 1000 ! 1) \<and>
   result_text (parallel_results second_throws three_tasks 1000 ! 1) = ''Error: boom'' \<and>
   runParallelSubagents second_throws three_tasks 1000
     = ''## one'' @ nl @ ''done: do one'' @ nl @ nl @ ''---'' @ nl @ nl
       @ ''## two'' @ nl @ ''Error: boom'' @ nl @ nl @ ''---'' @ nl @ nl
       @ ''## three'' @ nl @ ''done: do three''"
proof -
  have position: "(1::nat) < length three_tasks" by (simp add: three_tasks_def)
  have thrown: "second_throws 1 (task_text (three_tasks ! 1))
      (or_else_opt (working_directory (three_tasks ! 1)) ''.'') 1000 ''summary''
      = Inl (new_Error ''boom'')"
    by (simp add: second_throws_def)
  note sections = parallel_sections [of second_throws three_tasks 1000]
  from sections position thrown
  have entry: "result_name (parallel_results second_throws three_tasks 1000 ! 1)
        = task_name (three_tasks ! 1)
      \<and> \<not> success (parallel_results second_throws three_tasks 1000 ! 1)
      \<and> result_text (parallel_results second_throws three_tasks 1000 ! 1)
        = ''Error: '' @ message (new_Error ''boom'')"
    by blast
  have whole: "runParallelSubagents second_throws three_tasks 1000
      = ''## one'' @ nl @ ''done: do one'' @ nl @ nl @ ''---'' @ nl @ nl
        @ ''## two'' @ nl @ ''Error: boom'' @ nl @ nl @ ''---'' @ nl @ nl
        @ ''## three'' @ nl @ ''done: do three''"
    by (simp add: runParallelSubagents_def formattedResults_def parallel_results_def settle_def
        three_tasks_def second_throws_def new_Error_def or_else_opt_def or_else_def
        enumerate_eq_zip upt_rec)
  from position thrown entry whole show ?thesis
    by (simp add: three_tasks_def new_Error_def)
qed

section \<open>Properties of the tool-call loops\<close>

lemma run_blocks_length:
  "run_blocks assign exec w blocks toolResults textResponse = (Inr (rs, t), w') \<Longrightarrow>
   length rs = length toolResults + length (filter is_tool_use blocks)"
proof (induction blocks arbitrary: w toolResults textResponse)
  case Nil
  then show ?case by simp
next
  case (Cons b blocks)
  then show ?case
    by (cases b) (auto split: prod.splits sum.splits)
qed

lemma run_blocks_returns:
  assumes "executor_returns exec"
  shows "\<exists>rs t w'. run_blocks assign exec w blocks toolResults textResponse = (Inr (rs, t), w')"
proof (induction blocks arbitrary: w toolResults textResponse)
  case Nil
  then show ?case by simp
next
  case (Cons b blocks)
  show ?case
  proof (cases b)
    case (ToolUseBlock i n input)
    from assms obtain s w1 where "exec w n input = (Inr s, w1)"
      unfolding executor_returns_def by blast
    with ToolUseBlock Cons.IH show ?thesis by simp
  qed (simp_all add: Cons.IH)
qed

lemma tool_loop_exhausts:
  assumes "always_tool_call create" and "executor_returns exec"
  shows "iterations \<le> cap \<Longrightarrow>
         \<exists>msgs' w'. tool_loop cap request create exec w msgs iterations
                      = (MaxIterations, cap, msgs', w')"
proof (induction "cap - iterations" arbitrary: w msgs iterations)
  case 0
  then show ?case by (simp add: tool_loop.simps)
next
  case (Suc k)
  then have less: "iterations < cap" by simp
  from assms(1) obtain response w1 where
    create: "create w (request msgs) = (Inr response, w1)"
    and uses: "filter is_tool_use response \<noteq> []"
    unfolding always_tool_call_def by blast
  from run_blocks_returns [OF assms(2)] obtain rs t w2 where
    run: "run_blocks (\<lambda>old new. new) exec w1 response [] [] = (Inr (rs, t), w2)"
    by blast
  from run_blocks_length [OF run] uses have "rs \<noteq> []" by auto
  moreover have "\<exists>msgs' w'. tool_loop cap request create exec w2
       (msgs @ [AssistantContent response, UserToolResults rs]) (iterations + 1)
       = (MaxIterations, cap, msgs', w')"
    using Suc.hyps(1) [of "iterations + 1"] Suc.hyps(2) less by simp
  ultimately show ?case
    using less create run by (subst tool_loop.simps) simp
qed

lemma run_blocks_no_tool_use:
  "filter is_tool_use blocks = [] \<Longrightarrow>
   \<exists>t. run_blocks assign exec w blocks toolResults textResponse = (Inr (toolResults, t), w)"
proof (induction blocks arbitrary: textResponse)
  case Nil
  then show ?case by simp
next
  case (Cons b blocks)
  then show ?case by (cases b) auto
qed

text \<open>One iteration of the loop, by what happens in it; then a turn after which the loop
  goes on, and any number of them.\<close>

lemma tool_loop_cap:
  "tool_loop cap request create exec w msgs cap = (MaxIterations, cap, msgs, w)"
  by (simp add: tool_loop.simps)

lemma tool_loop_create_throws:
  "iterations < cap \<Longrightarrow> create w (request msgs) = (Inl err, w1) \<Longrightarrow>
   tool_loop cap request create exec w msgs iterations = (Thrown err, iterations + 1, msgs, w1)"
  by (simp add: tool_loop.simps)

lemma tool_loop_tool_throws:
  "iterations < cap \<Longrightarrow> create w (request msgs) = (Inr response, w1) \<Longrightarrow>
   run_blocks (\<lambda>old new. new) exec w1 response [] [] = (Inl err, w2) \<Longrightarrow>
   tool_loop cap request create exec w msgs iterations
     = (Thrown err, iterations + 1, msgs @ [AssistantContent response], w2)"
  by (simp add: tool_loop.simps)

lemma tool_loop_no_tool_use:
  "iterations < cap \<Longrightarrow> create w (request msgs) = (Inr response, w1) \<Longrightarrow>
   run_blocks (\<lambda>old new. new) exec w1 response [] [] = (Inr ([], t), w2) \<Longrightarrow>
   tool_loop cap request create exec w msgs iterations
     = (Completed t, iterations + 1, msgs @ [AssistantContent response], w2)"
  by (simp add: tool_loop.simps)

lemma tool_loop_turn:
  "iterations < cap \<Longrightarrow> tool_turn request create exec (w, msgs) = Some (v, hist) \<Longrightarrow>
   tool_loop cap request create exec w msgs iterations
     = tool_loop cap request create exec v hist (iterations + 1)"
  apply (subst tool_loop.simps)
  apply (auto simp add: tool_turn_def split: prod.splits sum.splits if_splits
      dest: run_blocks_length)
  done

lemma tool_loop_after_turns:
  "tool_turns k request create exec (w, msgs) = Some (v, hist) \<Longrightarrow> iterations + k \<le> cap \<Longrightarrow>
   tool_loop cap request create exec w msgs iterations
     = tool_loop cap request create exec v hist (iterations + k)"
proof (induction k arbitrary: w msgs iterations)
  case 0
  then show ?case by simp
next
  case (Suc k)
  from Suc.prems(1) obtain s' where
    turn: "tool_turn request create exec (w, msgs) = Some s'"
    and rest: "tool_turns k request create exec s' = Some (v, hist)"
    by (auto split: option.splits)
  obtain w2 msgs2 where s': "s' = (w2, msgs2)" by (cases s')
  have "tool_loop cap request create exec w msgs iterations
      = tool_loop cap request create exec w2 msgs2 (iterations + 1)"
    using Suc.prems(2) turn s' by (intro tool_loop_turn) auto
  also have "\<dots> = tool_loop cap request create exec v hist (iterations + 1 + k)"
    using Suc.prems(2) rest s' by (intro Suc.IH) auto
  finally show ?case by simp
qed

text \<open>The ways in which the loop is left, after \<open>k\<close> turns with tool calls.\<close>

lemma tool_loop_exits:
  "tool_loop cap request create exec w msgs iterations = (exit, n, msgs', w') \<Longrightarrow>
   iterations \<le> cap \<Longrightarrow>
   \<exists>k v hist. tool_turns k request create exec (w, msgs) = Some (v, hist) \<and> iterations + k \<le> cap \<and>
     (case exit of
        MaxIterations \<Rightarrow> iterations + k = cap \<and> n = cap \<and> msgs' = hist \<and> w' = v
      | Completed t \<Rightarrow>
          n = iterations + k + 1 \<and> n \<le> cap \<and>
          (\<exists>response w1. create v (request hist) = (Inr response, w1)
             \<and> filter is_tool_use response = []
             \<and> run_blocks (\<lambda>old new. new) exec w1 response [] [] = (Inr ([], t), w')
             \<and> msgs' = hist @ [AssistantContent response])
      | Thrown err \<Rightarrow>
          n = iterations + k + 1 \<and> n \<le> cap \<and>
          (create v (request hist) = (Inl err, w') \<and> msgs' = hist \<or>
           (\<exists>response w1. create v (request hist) = (Inr response, w1)
              \<and> run_blocks (\<lambda>old new. new) exec w1 response [] [] = (Inl err, w')
              \<and> msgs' = hist @ [AssistantContent response]))
      | NoCandidate \<Rightarrow> False)"
proof (induction cap request create exec w msgs iterations rule: tool_loop.induct)
  case (1 maxIterations request create exec w msgs iterations)
  show ?case
  proof (cases "iterations < maxIterations")
    case False
    with "1.prems" have "exit = MaxIterations" "n = maxIterations" "msgs' = msgs" "w' = w"
      "iterations = maxIterations"
      by (auto simp add: tool_loop.simps)
    then show ?thesis by (intro exI [of _ 0] exI [of _ w] exI [of _ msgs]) simp
  next
    case True
    show ?thesis
    proof (cases "create w (request msgs)")
      case (Pair answer w1)
      show ?thesis
      proof (cases answer)
        case (Inl err)
        with True Pair "1.prems" have "exit = Thrown err" "n = iterations + 1" "msgs' = msgs"
          "w' = w1"
          by (auto simp add: tool_loop.simps)
        with True Pair Inl show ?thesis
          by (intro exI [of _ 0] exI [of _ w] exI [of _ msgs]) simp
      next
        case (Inr response)
        show ?thesis
        proof (cases "run_blocks (\<lambda>old new. new) exec w1 response [] []")
          case run: (Pair ran w2)
          show ?thesis
          proof (cases ran)
            case (Inl err)
            with True Pair Inr run "1.prems" have "exit = Thrown err" "n = iterations + 1"
              "msgs' = msgs @ [AssistantContent response]" "w' = w2"
              by (auto simp add: tool_loop.simps)
            with True Pair Inr run Inl show ?thesis
              by (intro exI [of _ 0] exI [of _ w] exI [of _ msgs]) simp
          next
            case ran: (Inr both)
            obtain rs t where both: "both = (rs, t)" by (cases both)
            from run ran both
              run_blocks_length [of "\<lambda>old new. new" exec w1 response "[]" "[]" rs t w2]
            have len: "length rs = length (filter is_tool_use response)" by simp
            show ?thesis
            proof (cases "rs = []")
              case empty: True
              with len have none: "filter is_tool_use response = []" by simp
              from True Pair Inr run ran both empty "1.prems"
              have "exit = Completed t" "n = iterations + 1"
                "msgs' = msgs @ [AssistantContent response]" "w' = w2"
                by (auto simp add: tool_loop.simps)
              with True Pair Inr run ran both empty none show ?thesis
                by (intro exI [of _ 0] exI [of _ w] exI [of _ msgs]) simp
            next
              case False
              with len have some: "filter is_tool_use response \<noteq> []" by auto
              have turn: "tool_turn request create exec (w, msgs)
                    = Some (w2, msgs @ [AssistantContent response, UserToolResults rs])"
                using Pair Inr run ran both some by (simp add: tool_turn_def)
              have rec: "tool_loop maxIterations request create exec w2
                      (msgs @ [AssistantContent response, UserToolResults rs]) (iterations + 1)
                    = (exit, n, msgs', w')"
                using "1.prems"(1) True Pair Inr run ran both False
                by (subst (asm) tool_loop.simps) simp
              have le: "iterations + 1 \<le> maxIterations" using True by simp
              from "1.IH" [OF True Pair [symmetric] Inr run [symmetric] ran both [symmetric]
                  False rec le]
              obtain k v hist where
                turns: "tool_turns k request create exec
                          (w2, msgs @ [AssistantContent response, UserToolResults rs])
                        = Some (v, hist)"
                and bound: "iterations + 1 + k \<le> maxIterations"
                and how: "(case exit of
                    MaxIterations \<Rightarrow> iterations + 1 + k = maxIterations \<and> n = maxIterations
                       \<and> msgs' = hist \<and> w' = v
                  | Completed t \<Rightarrow>
                      n = iterations + 1 + k + 1 \<and> n \<le> maxIterations \<and>
                      (\<exists>response w1. create v (request hist) = (Inr response, w1)
                         \<and> filter is_tool_use response = []
                         \<and> run_blocks (\<lambda>old new. new) exec w1 response [] [] = (Inr ([], t), w')
                         \<and> msgs' = hist @ [AssistantContent response])
                  | Thrown err \<Rightarrow>
                      n = iterations + 1 + k + 1 \<and> n \<le> maxIterations \<and>
                      (create v (request hist) = (Inl err, w') \<and> msgs' = hist \<or>
                       (\<exists>response w1. create v (request hist) = (Inr response, w1)
                          \<and> run_blocks (\<lambda>old new. new) exec w1 response [] [] = (Inl err, w')
                          \<and> msgs' = hist @ [AssistantContent response]))
                  | NoCandidate \<Rightarrow> False)"
                by blast
              have "tool_turns (Suc k) request create exec (w, msgs) = Some (v, hist)"
                using turn turns by simp
              moreover have "iterations + Suc k \<le> maxIterations" using bound by simp
              moreover have "(case exit of
                    MaxIterations \<Rightarrow> iterations + Suc k = maxIterations \<and> n = maxIterations
                       \<and> msgs' = hist \<and> w' = v
                  | Completed t \<Rightarrow>
                      n = iterations + Suc k + 1 \<and> n \<le> maxIterations \<and>
                      (\<exists>response w1. create v (request hist) = (Inr response, w1)
                         \<and> filter is_tool_use response = []
                         \<and> run_blocks (\<lambda>old new. new) exec w1 response [] [] = (Inr ([], t), w')
                         \<and> msgs' = hist @ [AssistantContent response])
                  | Thrown err \<Rightarrow>
                      n = iterations + Suc k + 1 \<and> n \<le> maxIterations \<and>
                      (create v (request hist) = (Inl err, w') \<and> msgs' = hist \<or>
                       (\<exists>response w1. create v (request hist) = (Inr response, w1)
                          \<and> run_blocks (\<lambda>old new. new) exec w1 response [] [] = (Inl err, w')
                          \<and> msgs' = hist @ [AssistantContent response]))
                  | NoCandidate \<Rightarrow> False)"
                using how by (cases exit) simp_all
              ultimately show ?thesis by blast
            qed
          qed
        qed
      qed
    qed
  qed
qed

lemma tool_loop_left:
  assumes "tool_loop cap request create exec w msgs 0 = (exit, n, msgs', w')"
  shows "\<exists>k v hist. tool_turns k request create exec (w, msgs) = Some (v, hist) \<and> k \<le> cap \<and>
        (case exit of
           MaxIterations \<Rightarrow> k = cap \<and> n = cap \<and> msgs' = hist \<and> w' = v
         | Completed t \<Rightarrow>
             n = k + 1 \<and> n \<le> cap \<and>
             (\<exists>response w1. create v (request hist) = (Inr response, w1)
                \<and> filter is_tool_use response = []
                \<and> run_blocks (\<lambda>old new. new) exec w1 response [] [] = (Inr ([], t), w')
                \<and> msgs' = hist @ [AssistantContent response])
         | Thrown err \<Rightarrow>
             n = k + 1 \<and> n \<le> cap \<and>
             (create v (request hist) = (Inl err, w') \<and> msgs' = hist \<or>
              (\<exists>response w1. create v (request hist) = (Inr response, w1)
                 \<and> run_blocks (\<lambda>old new. new) exec w1 response [] [] = (Inl err, w')
                 \<and> msgs' = hist @ [AssistantContent response]))
         | NoCandidate \<Rightarrow> False)"
  using tool_loop_exits [OF assms] by (cases exit) simp_all

lemma tool_loop_leaves:
  assumes "tool_turns k request create exec (w, msgs) = Some (v, hist) \<and> k \<le> cap"
  shows "(k = cap \<longrightarrow> tool_loop cap request create exec w msgs 0 = (MaxIterations, cap, hist, v)) \<and>
         (k < cap \<longrightarrow>
            (\<forall>err w1. create v (request hist) = (Inl err, w1) \<longrightarrow>
               tool_loop cap request create exec w msgs 0 = (Thrown err, k + 1, hist, w1)) \<and>
            (\<forall>response w1 err w2.
               create v (request hist) = (Inr response, w1)
               \<and> run_blocks (\<lambda>old new. new) exec w1 response [] [] = (Inl err, w2) \<longrightarrow>
               tool_loop cap request create exec w msgs 0
                 = (Thrown err, k + 1, hist @ [AssistantContent response], w2)) \<and>
            (\<forall>response w1.
               create v (request hist) = (Inr response, w1)
               \<and> filter is_tool_use response = [] \<longrightarrow>
               (\<exists>t. tool_loop cap request create exec w msgs 0
                      = (Completed t, k + 1, hist @ [AssistantContent response], w1))))"
proof -
  from assms have turns: "tool_turns k request create exec (w, msgs) = Some (v, hist)"
    and k: "k \<le> cap" by simp_all
  from tool_loop_after_turns [OF turns, of 0 cap] k
  have after: "tool_loop cap request create exec w msgs 0
      = tool_loop cap request create exec v hist k"
    by simp
  have "\<exists>t. tool_loop cap request create exec v hist k
            = (Completed t, k + 1, hist @ [AssistantContent response], w1)"
    if "k < cap" and "create v (request hist) = (Inr response, w1)"
      and "filter is_tool_use response = []" for response w1
  proof -
    from run_blocks_no_tool_use [OF that(3), of "\<lambda>old new. new" exec w1 "[]" "[]"]
    obtain t where
      "run_blocks (\<lambda>old new. new) exec w1 response [] [] = (Inr ([], t), w1)"
      by blast
    with that(1,2) show ?thesis by (auto simp add: tool_loop_no_tool_use)
  qed
  with after show ?thesis
    by (auto simp add: tool_loop_cap tool_loop_create_throws tool_loop_tool_throws)
qed

lemma run_function_calls_returns:
  assumes "executor_returns exec"
  shows "\<exists>rs w'. run_function_calls exec w parts functionResponses = (Inr rs, w')"
proof (induction parts arbitrary: w functionResponses)
  case Nil
  then show ?case by simp
next
  case (Cons part parts)
  show ?case
  proof (cases "functionCall part")
    case None
    with Cons.IH show ?thesis by simp
  next
    case (Some call)
    obtain n args where call: "call = (n, args)" by (cases call)
    from assms obtain s w1 where "exec w n args = (Inr s, w1)"
      unfolding executor_returns_def by blast
    with Some call Cons.IH show ?thesis by simp
  qed
qed

lemma gemini_loop_exhausts:
  assumes "always_function_call sendMessage" and "executor_returns exec"
  shows "iterations \<le> 10 \<Longrightarrow> filter (\<lambda>p. functionCall p \<noteq> None) parts \<noteq> [] \<Longrightarrow>
         \<exists>w'. gemini_loop sendMessage exec w (Some parts) iterations sent
                = (MaxIterations, 10, sent + (10 - iterations), w')"
proof (induction "10 - iterations" arbitrary: w parts iterations sent)
  case 0
  then show ?case by (simp add: gemini_loop.simps)
next
  case (Suc k)
  then have less: "iterations < 10" by simp
  from run_function_calls_returns [OF assms(2)] obtain rs w1 where
    run: "run_function_calls exec w (filter (\<lambda>p. functionCall p \<noteq> None) parts) [] = (Inr rs, w1)"
    by blast
  from assms(1) obtain parts' w2 where
    sent: "sendMessage w1 (SendFunctionResponses rs) = (Inr (Some parts'), w2)"
    and calls: "filter (\<lambda>p. functionCall p \<noteq> None) parts' \<noteq> []"
    unfolding always_function_call_def by blast
  have k: "k = 10 - (iterations + 1)" using Suc.hyps(2) by simp
  have le: "iterations + 1 \<le> 10" using less by simp
  have "\<exists>w'. gemini_loop sendMessage exec w2 (Some parts') (iterations + 1) (sent + 1)
               = (MaxIterations, 10, sent + 1 + (10 - (iterations + 1)), w')"
    by (rule Suc.hyps(1) [OF k le calls])
  moreover have "sent + 1 + (10 - (iterations + 1)) = sent + (10 - iterations)"
    using less by simp
  ultimately show ?case
    using less run sent Suc.prems(2) by (subst gemini_loop.simps) (simp add: Let_def)
qed

text \<open>The same for the loop of \<open>searchWithGemini\<close>.\<close>

lemma gemini_loop_turn:
  "iterations < 10 \<Longrightarrow> gemini_turn sendMessage exec (w, response) = Some (v, response') \<Longrightarrow>
   gemini_loop sendMessage exec w response iterations sent
     = gemini_loop sendMessage exec v response' (iterations + 1) (sent + 1)"
  apply (subst gemini_loop.simps)
  apply (auto simp add: gemini_turn_def Let_def split: option.splits prod.splits sum.splits if_splits)
  done

lemma gemini_loop_after_turns:
  "gemini_turns k sendMessage exec (w, response) = Some (v, response') \<Longrightarrow> iterations + k \<le> 10 \<Longrightarrow>
   gemini_loop sendMessage exec w response iterations sent
     = gemini_loop sendMessage exec v response' (iterations + k) (sent + k)"
proof (induction k arbitrary: w response iterations sent)
  case 0
  then show ?case by simp
next
  case (Suc k)
  from Suc.prems(1) obtain s' where
    turn: "gemini_turn sendMessage exec (w, response) = Some s'"
    and rest: "gemini_turns k sendMessage exec s' = Some (v, response')"
    by (auto split: option.splits)
  obtain w2 response2 where s': "s' = (w2, response2)" by (cases s')
  have "gemini_loop sendMessage exec w response iterations sent
      = gemini_loop sendMessage exec w2 response2 (iterations + 1) (sent + 1)"
    using Suc.prems(2) turn s' by (intro gemini_loop_turn) auto
  also have "\<dots> = gemini_loop sendMessage exec v response' (iterations + 1 + k) (sent + 1 + k)"
    using Suc.prems(2) rest s' by (intro Suc.IH) auto
  finally show ?case by simp
qed

lemma gemini_loop_exits:
  "gemini_loop sendMessage exec w response iterations sent = (exit, n, sent', w') \<Longrightarrow>
   iterations \<le> 10 \<Longrightarrow>
   \<exists>k v reply. gemini_turns k sendMessage exec (w, response) = Some (v, reply)
     \<and> iterations + k \<le> 10 \<and>
     (case exit of
        MaxIterations \<Rightarrow> iterations + k = 10 \<and> n = 10 \<and> sent' = sent + k \<and> w' = v
      | NoCandidate \<Rightarrow>
          n = iterations + k + 1 \<and> n \<le> 10 \<and> sent' = sent + k \<and> w' = v \<and> reply = None
      | Completed t \<Rightarrow>
          n = iterations + k + 1 \<and> n \<le> 10 \<and> sent' = sent + k \<and> w' = v \<and>
          (\<exists>parts. reply = Some parts \<and> filter (\<lambda>p. functionCall p \<noteq> None) parts = []
             \<and> t = finalText parts)
      | Thrown err \<Rightarrow>
          n = iterations + k + 1 \<and> n \<le> 10 \<and>
          (\<exists>parts. reply = Some parts \<and>
             (run_function_calls exec v (filter (\<lambda>p. functionCall p \<noteq> None) parts) []
                = (Inl err, w') \<and> sent' = sent + k \<or>
              (\<exists>functionResponses w1.
                 run_function_calls exec v (filter (\<lambda>p. functionCall p \<noteq> None) parts) []
                   = (Inr functionResponses, w1)
                 \<and> sendMessage w1 (SendFunctionResponses functionResponses) = (Inl err, w')
                 \<and> sent' = sent + k + 1))))"
proof (induction sendMessage exec w response iterations sent rule: gemini_loop.induct)
  case (1 sendMessage exec w response iterations sent)
  show ?case
  proof (cases "iterations < 10")
    case False
    with "1.prems" have "exit = MaxIterations" "n = 10" "sent' = sent" "w' = w" "iterations = 10"
      by (auto simp add: gemini_loop.simps)
    then show ?thesis by (intro exI [of _ 0] exI [of _ w] exI [of _ response]) simp
  next
    case True
    show ?thesis
    proof (cases response)
      case None
      with True "1.prems" have "exit = NoCandidate" "n = iterations + 1" "sent' = sent" "w' = w"
        by (auto simp add: gemini_loop.simps)
      with True None show ?thesis
        by (intro exI [of _ 0] exI [of _ w] exI [of _ response]) simp
    next
      case (Some parts)
      show ?thesis
      proof (cases "filter (\<lambda>p. functionCall p \<noteq> None) parts = []")
        case none: True
        with True Some "1.prems" have "exit = Completed (finalText parts)" "n = iterations + 1"
          "sent' = sent" "w' = w"
          by (auto simp add: gemini_loop.simps)
        with True Some none show ?thesis
          by (intro exI [of _ 0] exI [of _ w] exI [of _ response]) simp
      next
        case False
        show ?thesis
        proof (cases "run_function_calls exec w (filter (\<lambda>p. functionCall p \<noteq> None) parts) []")
          case run: (Pair ran w1)
          show ?thesis
          proof (cases ran)
            case (Inl err)
            with True Some False run "1.prems" have "exit = Thrown err" "n = iterations + 1"
              "sent' = sent" "w' = w1"
              by (auto simp add: gemini_loop.simps)
            with True Some False run Inl show ?thesis
              by (intro exI [of _ 0] exI [of _ w] exI [of _ response]) simp
          next
            case (Inr functionResponses)
            show ?thesis
            proof (cases "sendMessage w1 (SendFunctionResponses functionResponses)")
              case send: (Pair answer w2)
              show ?thesis
              proof (cases answer)
                case (Inl err)
                with True Some False run Inr send "1.prems" have "exit = Thrown err"
                  "n = iterations + 1" "sent' = sent + 1" "w' = w2"
                  by (auto simp add: gemini_loop.simps)
                with True Some False run Inr send Inl show ?thesis
                  by (intro exI [of _ 0] exI [of _ w] exI [of _ response]) simp
              next
                case answer: (Inr response')
                have turn: "gemini_turn sendMessage exec (w, response) = Some (w2, response')"
                  using Some False run Inr send answer by (simp add: gemini_turn_def)
                have rec: "gemini_loop sendMessage exec w2 response' (iterations + 1) (sent + 1)
                      = (exit, n, sent', w')"
                  using "1.prems"(1) True Some False run Inr send answer
                  by (subst (asm) gemini_loop.simps) simp
                have le: "iterations + 1 \<le> 10" using True by simp
                from "1.IH" [OF True Some refl False run [symmetric] Inr send [symmetric] answer
                    rec le]
                obtain k v reply where
                  turns: "gemini_turns k sendMessage exec (w2, response') = Some (v, reply)"
                  and bound: "iterations + 1 + k \<le> 10"
                  and how: "(case exit of
                      MaxIterations \<Rightarrow> iterations + 1 + k = 10 \<and> n = 10 \<and> sent' = sent + 1 + k
                         \<and> w' = v
                    | NoCandidate \<Rightarrow>
                        n = iterations + 1 + k + 1 \<and> n \<le> 10 \<and> sent' = sent + 1 + k \<and> w' = v
                        \<and> reply = None
                    | Completed t \<Rightarrow>
                        n = iterations + 1 + k + 1 \<and> n \<le> 10 \<and> sent' = sent + 1 + k \<and> w' = v \<and>
                        (\<exists>parts. reply = Some parts
                           \<and> filter (\<lambda>p. functionCall p \<noteq> None) parts = []
                           \<and> t = finalText parts)
                    | Thrown err \<Rightarrow>
                        n = iterations + 1 + k + 1 \<and> n \<le> 10 \<and>
                        (\<exists>parts. reply = Some parts \<and>
                           (run_function_calls exec v
                              (filter (\<lambda>p. functionCall p \<noteq> None) parts) []
                              = (Inl err, w') \<and> sent' = sent + 1 + k \<or>
                            (\<exists>functionResponses w1.
                               run_function_calls exec v
                                 (filter (\<lambda>p. functionCall p \<noteq> None) parts) []
                                 = (Inr functionResponses, w1)
                               \<and> sendMessage w1 (SendFunctionResponses functionResponses)
                                 = (Inl err, w')
                               \<and> sent' = sent + 1 + k + 1))))"
                  by blast
                have "gemini_turns (Suc k) sendMessage exec (w, response) = Some (v, reply)"
                  using turn turns by simp
                moreover have "iterations + Suc k \<le> 10" using bound by simp
                moreover have "(case exit of
                      MaxIterations \<Rightarrow> iterations + Suc k = 10 \<and> n = 10 \<and> sent' = sent + Suc k
                         \<and> w' = v
                    | NoCandidate \<Rightarrow>
                        n = iterations + Suc k + 1 \<and> n \<le> 10 \<and> sent' = sent + Suc k \<and> w' = v
                        \<and> reply = None
                    | Completed t \<Rightarrow>
                        n = iterations + Suc k + 1 \<and> n \<le> 10 \<and> sent' = sent + Suc k \<and> w' = v \<and>
                        (\<exists>parts. reply = Some parts
                           \<and> filter (\<lambda>p. functionCall p \<noteq> None) parts = []
                           \<and> t = finalText parts)
                    | Thrown err \<Rightarrow>
                        n = iterations + Suc k + 1 \<and> n \<le> 10 \<and>
                        (\<exists>parts. reply = Some parts \<and>
                           (run_function_calls exec v
                              (filter (\<lambda>p. functionCall p \<noteq> None) parts) []
                              = (Inl err, w') \<and> sent' = sent + Suc k \<or>
                            (\<exists>functionResponses w1.
                               run_function_calls exec v
                                 (filter (\<lambda>p. functionCall p \<noteq> None) parts) []
                                 = (Inr functionResponses, w1)
                               \<and> sendMessage w1 (SendFunctionResponses functionResponses)
                                 = (Inl err, w')
                               \<and> sent' = sent + Suc k + 1))))"
                  using how by (cases exit) simp_all
                ultimately show ?thesis by blast
              qed
            qed
          qed
        qed
      qed
    qed
  qed
qed

lemma searchWithAnthropic_exhausts:
  assumes "always_tool_call create" and "executor_returns exec"
  shows "\<exists>msgs w'. searchWithAnthropic_loop create exec w systemPrompt query
                      = (MaxIterations, 10, msgs, w')
                    \<and> searchWithAnthropic create exec w systemPrompt query
                      = (Inr ''Search reached maximum iterations'', w')"
proof -
  from tool_loop_exhausts [OF assms, of 0 10] obtain msgs w' where
    "searchWithAnthropic_loop create exec w systemPrompt query = (MaxIterations, 10, msgs, w')"
    unfolding searchWithAnthropic_loop_def by blast
  then show ?thesis by (simp add: searchWithAnthropic_def)
qed

lemma searchWithGemini_exhausts:
  assumes "always_function_call sendMessage" and "executor_returns exec"
  shows "\<exists>w'. searchWithGemini_loop sendMessage exec w query = (MaxIterations, 10, 11, w')
               \<and> searchWithGemini sendMessage exec w query
                 = (Inr ''Search reached maximum iterations'', w')"
proof -
  from assms(1) obtain parts w1 where
    first: "sendMessage w (SendText query) = (Inr (Some parts), w1)"
    and calls: "filter (\<lambda>p. functionCall p \<noteq> None) parts \<noteq> []"
    unfolding always_function_call_def by blast
  from gemini_loop_exhausts [OF assms _ calls, of 0 w1 1] obtain w' where
    "gemini_loop sendMessage exec w1 (Some parts) 0 1 = (MaxIterations, 10, 11, w')"
    by auto
  with first have "searchWithGemini_loop sendMessage exec w query = (MaxIterations, 10, 11, w')"
    by (simp add: searchWithGemini_loop_def)
  then show ?thesis by (simp add: searchWithGemini_def)
qed

lemma search_exhausts:
  assumes "always_tool_call create" and "always_function_call sendMessage"
    and "executor_returns exec"
  shows "\<exists>msgs w'. searchWithAnthropic_loop create exec w (search_systemPrompt scope) query
                      = (MaxIterations, 10, msgs, w')
                    \<and> search False sendMessage create exec w query scope
                      = (Inr ''Search reached maximum iterations'', w')"
    and "\<exists>w'. searchWithGemini_loop sendMessage exec w query = (MaxIterations, 10, 11, w')
               \<and> search True sendMessage create exec w query scope
                 = (Inr ''Search reached maximum iterations'', w')"
proof -
  from searchWithAnthropic_exhausts [OF assms(1,3), of w "search_systemPrompt scope" query]
  show "\<exists>msgs w'. searchWithAnthropic_loop create exec w (search_systemPrompt scope) query
                      = (MaxIterations, 10, msgs, w')
                    \<and> search False sendMessage create exec w query scope
                      = (Inr ''Search reached maximum iterations'', w')"
    by (auto simp add: search_def Let_def)
  from searchWithGemini_exhausts [OF assms(2,3), of w query]
  show "\<exists>w'. searchWithGemini_loop sendMessage exec w query = (MaxIterations, 10, 11, w')
               \<and> search True sendMessage create exec w query scope
                 = (Inr ''Search reached maximum iterations'', w')"
    by (auto simp add: search_def Let_def CONFIG_def)
qed

lemma searchWithGemini_left:
  assumes left: "searchWithGemini_loop sendMessage exec w query = (exit, n, sent, w')"
  shows "(\<exists>err. sendMessage w (SendText query) = (Inl err, w') \<and> exit = Thrown err \<and> n = 0 \<and> sent = 1) \<or>
     (\<exists>response w1 k v reply.
        sendMessage w (SendText query) = (Inr response, w1)
        \<and> gemini_turns k sendMessage exec (w1, response) = Some (v, reply) \<and> k \<le> 10 \<and>
        (case exit of
           MaxIterations \<Rightarrow> k = 10 \<and> n = 10 \<and> sent = 11 \<and> w' = v
         | NoCandidate \<Rightarrow> n = k + 1 \<and> n \<le> 10 \<and> sent = k + 1 \<and> w' = v \<and> reply = None
         | Completed t \<Rightarrow>
             n = k + 1 \<and> n \<le> 10 \<and> sent = k + 1 \<and> w' = v \<and>
             (\<exists>parts. reply = Some parts \<and> filter (\<lambda>p. functionCall p \<noteq> None) parts = []
                \<and> t = finalText parts)
         | Thrown err \<Rightarrow>
             n = k + 1 \<and> n \<le> 10 \<and>
             (\<exists>parts. reply = Some parts \<and>
                (run_function_calls exec v (filter (\<lambda>p. functionCall p \<noteq> None) parts) []
                   = (Inl err, w') \<and> sent = k + 1 \<or>
                 (\<exists>functionResponses v1.
                    run_function_calls exec v (filter (\<lambda>p. functionCall p \<noteq> None) parts) []
                      = (Inr functionResponses, v1)
                    \<and> sendMessage v1 (SendFunctionResponses functionResponses) = (Inl err, w')
                    \<and> sent = k + 2)))))"
proof -
  obtain answer w1 where first: "sendMessage w (SendText query) = (answer, w1)"
    by (cases "sendMessage w (SendText query)")
  show ?thesis
  proof (cases answer)
    case (Inl err)
    with first left show ?thesis by (simp add: searchWithGemini_loop_def)
  next
    case (Inr response)
    with first left have "gemini_loop sendMessage exec w1 response 0 1 = (exit, n, sent, w')"
      by (simp add: searchWithGemini_loop_def)
    from gemini_loop_exits [OF this] obtain k v reply where
      turns: "gemini_turns k sendMessage exec (w1, response) = Some (v, reply)"
      and bound: "k \<le> 10"
      and how: "(case exit of
          MaxIterations \<Rightarrow> 0 + k = 10 \<and> n = 10 \<and> sent = 1 + k \<and> w' = v
        | NoCandidate \<Rightarrow> n = 0 + k + 1 \<and> n \<le> 10 \<and> sent = 1 + k \<and> w' = v \<and> reply = None
        | Completed t \<Rightarrow>
            n = 0 + k + 1 \<and> n \<le> 10 \<and> sent = 1 + k \<and> w' = v \<and>
            (\<exists>parts. reply = Some parts \<and> filter (\<lambda>p. functionCall p \<noteq> None) parts = []
               \<and> t = finalText parts)
        | Thrown err \<Rightarrow>
            n = 0 + k + 1 \<and> n \<le> 10 \<and>
            (\<exists>parts. reply = Some parts \<and>
               (run_function_calls exec v (filter (\<lambda>p. functionCall p \<noteq> None) parts) []
                  = (Inl err, w') \<and> sent = 1 + k \<or>
                (\<exists>functionResponses w1.
                   run_function_calls exec v (filter (\<lambda>p. functionCall p \<noteq> None) parts) []
                     = (Inr functionResponses, w1)
                   \<and> sendMessage w1 (SendFunctionResponses functionResponses) = (Inl err, w')
                   \<and> sent = 1 + k + 1))))"
      by auto
    have "(case exit of
           MaxIterations \<Rightarrow> k = 10 \<and> n = 10 \<and> sent = 11 \<and> w' = v
         | NoCandidate \<Rightarrow> n = k + 1 \<and> n \<le> 10 \<and> sent = k + 1 \<and> w' = v \<and> reply = None
         | Completed t \<Rightarrow>
             n = k + 1 \<and> n \<le> 10 \<and> sent = k + 1 \<and> w' = v \<and>
             (\<exists>parts. reply = Some parts \<and> filter (\<lambda>p. functionCall p \<noteq> None) parts = []
                \<and> t = finalText parts)
         | Thrown err \<Rightarrow>
             n = k + 1 \<and> n \<le> 10 \<and>
             (\<exists>parts. reply = Some parts \<and>
                (run_function_calls exec v (filter (\<lambda>p. functionCall p \<noteq> None) parts) []
                   = (Inl err, w') \<and> sent = k + 1 \<or>
                 (\<exists>functionResponses v1.
                    run_function_calls exec v (filter (\<lambda>p. functionCall p \<noteq> None) parts) []
                      = (Inr functionResponses, v1)
                    \<and> sendMessage v1 (SendFunctionResponses functionResponses) = (Inl err, w')
                    \<and> sent = k + 2))))"
      using how by (cases exit) (simp_all add: add.commute)
    with first Inr turns bound show ?thesis by blast
  qed
qed

lemma gemini_loop_cap:
  "gemini_loop sendMessage exec w response 10 sent = (MaxIterations, 10, sent, w)"
  by (simp add: gemini_loop.simps)

lemma gemini_loop_no_candidate:
  "iterations < 10 \<Longrightarrow>
   gemini_loop sendMessage exec w None iterations sent = (NoCandidate, iterations + 1, sent, w)"
  by (simp add: gemini_loop.simps)

lemma gemini_loop_no_function_call:
  "iterations < 10 \<Longrightarrow> filter (\<lambda>p. functionCall p \<noteq> None) parts = [] \<Longrightarrow>
   gemini_loop sendMessage exec w (Some parts) iterations sent
     = (Completed (finalText parts), iterations + 1, sent, w)"
  by (simp add: gemini_loop.simps)

lemma gemini_loop_tool_throws:
  "iterations < 10 \<Longrightarrow>
   run_function_calls exec w (filter (\<lambda>p. functionCall p \<noteq> None) parts) [] = (Inl err, w1) \<Longrightarrow>
   gemini_loop sendMessage exec w (Some parts) iterations sent
     = (Thrown err, iterations + 1, sent, w1)"
  by (subst gemini_loop.simps) (auto simp add: Let_def)

lemma gemini_loop_send_throws:
  "iterations < 10 \<Longrightarrow> filter (\<lambda>p. functionCall p \<noteq> None) parts \<noteq> [] \<Longrightarrow>
   run_function_calls exec w (filter (\<lambda>p. functionCall p \<noteq> None) parts) []
     = (Inr functionResponses, w1) \<Longrightarrow>
   sendMessage w1 (SendFunctionResponses functionResponses) = (Inl err, w2) \<Longrightarrow>
   gemini_loop sendMessage exec w (Some parts) iterations sent
     = (Thrown err, iterations + 1, sent + 1, w2)"
  by (subst gemini_loop.simps) (simp add: Let_def)

lemma searchWithGemini_leaves:
  assumes "sendMessage w (SendText query) = (Inr response, w1)
     \<and> gemini_turns k sendMessage exec (w1, response) = Some (v, reply) \<and> k \<le> 10"
  shows "(k = 10 \<longrightarrow>
            searchWithGemini_loop sendMessage exec w query = (MaxIterations, 10, 11, v)) \<and>
         (k < 10 \<longrightarrow>
            (reply = None \<longrightarrow>
               searchWithGemini_loop sendMessage exec w query = (NoCandidate, k + 1, k + 1, v)) \<and>
            (\<forall>parts.
               reply = Some parts \<and> filter (\<lambda>p. functionCall p \<noteq> None) parts = [] \<longrightarrow>
               searchWithGemini_loop sendMessage exec w query
                 = (Completed (finalText parts), k + 1, k + 1, v)) \<and>
            (\<forall>parts err v1.
               reply = Some parts
               \<and> run_function_calls exec v (filter (\<lambda>p. functionCall p \<noteq> None) parts) []
                 = (Inl err, v1) \<longrightarrow>
               searchWithGemini_loop sendMessage exec w query = (Thrown err, k + 1, k + 1, v1)) \<and>
            (\<forall>parts functionResponses v1 err v2.
               reply = Some parts \<and> filter (\<lambda>p. functionCall p \<noteq> None) parts \<noteq> []
               \<and> run_function_calls exec v (filter (\<lambda>p. functionCall p \<noteq> None) parts) []
                 = (Inr functionResponses, v1)
               \<and> sendMessage v1 (SendFunctionResponses functionResponses) = (Inl err, v2) \<longrightarrow>
               searchWithGemini_loop sendMessage exec w query = (Thrown err, k + 1, k + 2, v2)))"
proof -
  from assms have first: "sendMessage w (SendText query) = (Inr response, w1)"
    and turns: "gemini_turns k sendMessage exec (w1, response) = Some (v, reply)"
    and k: "k \<le> 10"
    by simp_all
  from gemini_loop_after_turns [OF turns, of 0 1] k
  have "gemini_loop sendMessage exec w1 response 0 1 = gemini_loop sendMessage exec v reply k (1 + k)"
    by simp
  with first have after: "searchWithGemini_loop sendMessage exec w query
      = gemini_loop sendMessage exec v reply k (k + 1)"
    by (simp add: searchWithGemini_loop_def)
  show ?thesis
    unfolding after
    by (auto simp add: gemini_loop_cap gemini_loop_no_candidate gemini_loop_no_function_call
        gemini_loop_tool_throws gemini_loop_send_throws)
qed

lemma research_exhausts:
  assumes "always_tool_call create" and "executor_returns exec"
  shows "\<exists>msgs w'. research_loop create exec w currentYear query library request_type
                      = (MaxIterations, 15, msgs, w')
                    \<and> research create exec w currentYear query library request_type
                      = (Inr ''Librarian reached maximum iterations'', w')"
proof -
  from tool_loop_exhausts [OF assms, of 0 15] obtain msgs w' where
    "research_loop create exec w currentYear query library request_type
       = (MaxIterations, 15, msgs, w')"
    unfolding research_loop_def by blast
  then show ?thesis by (simp add: research_def)
qed

lemma spawn_exhausts:
  assumes "always_tool_call create" and "executor_returns exec"
  shows "\<exists>msgs w'. spawn_loop create exec w task workingDirectory maxOutputTokens outputFormat
                      = (MaxIterations, 20, msgs, w')
                    \<and> spawn create exec w task workingDirectory maxOutputTokens outputFormat
                      = (Inr (truncateOutput ''Subagent reached maximum iterations.''
                                maxOutputTokens), w')"
proof -
  from tool_loop_exhausts [OF assms, of 0 20] obtain msgs w' where
    "spawn_loop create exec w task workingDirectory maxOutputTokens outputFormat
       = (MaxIterations, 20, msgs, w')"
    unfolding spawn_loop_def by blast
  then show ?thesis by (simp add: spawn_def)
qed

lemma sentinel_within_budget:
  "9 \<le> maxOutputTokens \<Longrightarrow>
   truncateOutput ''Subagent reached maximum iterations.'' maxOutputTokens
     = ''Subagent reached maximum iterations.''"
  by (rule truncateOutput_short) simp

lemma stubs_always:
  "always_tool_call stub_provider" "always_function_call stub_chat"
  "executor_returns stub_executor"
  by (simp_all add: always_tool_call_def stub_provider_def always_function_call_def
      stub_chat_def executor_returns_def stub_executor_def)

lemma spawn_thrown:
  "spawn_loop (failing_provider text) exec w task workingDirectory maxOutputTokens outputFormat
     = (Thrown (new_Error text), 1, [UserText task], w)"
  "spawn (failing_provider text) exec w task workingDirectory maxOutputTokens outputFormat
     = (Inr (''Subagent error: '' @ text), w)"
  by (simp_all add: spawn_def spawn_loop_def tool_loop.simps failing_provider_def new_Error_def)

text \<open>When the loop of the subagent is left otherwise than by an exception, what \<open>spawn\<close>
  returns has passed through \<open>truncateOutput\<close>.\<close>

lemma spawn_budgeted:
  assumes "spawn_loop create exec w task workingDirectory maxOutputTokens outputFormat
             = (exit, n, msgs, w')"
    and "\<forall>err. exit \<noteq> Thrown err"
  shows "\<exists>text. spawn create exec w task workingDirectory maxOutputTokens outputFormat
                  = (Inr (truncateOutput text maxOutputTokens), w')"
  using assms by (cases exit) (auto simp add: spawn_def)

text \<open>What \<open>spawn\<close>, \<open>research\<close> and \<open>search\<close> return, by the way their loop was
  left.\<close>

lemma spawn_reports:
  "spawn_loop create exec w task workingDirectory maxOutputTokens outputFormat
     = (exit, n, msgs', w') \<Longrightarrow>
   spawn create exec w task workingDirectory maxOutputTokens outputFormat
     = (Inr (case exit of
               Completed t \<Rightarrow> truncateOutput (or_else t ''Task completed'') maxOutputTokens
             | Thrown err \<Rightarrow> ''Subagent error: '' @ message err
             | _ \<Rightarrow> truncateOutput ''Subagent reached maximum iterations.'' maxOutputTokens),
        w')"
  by (simp add: spawn_def split: loop_exit.splits)

lemma research_reports:
  "research_loop create exec w currentYear question library request_type
     = (exit, n, msgs', w') \<Longrightarrow>
   research create exec w currentYear question library request_type
     = (Inr (case exit of
               Completed t \<Rightarrow> or_else t ''Research completed''
             | Thrown err \<Rightarrow> ''Librarian error: '' @ message err
             | _ \<Rightarrow> ''Librarian reached maximum iterations''),
        w')"
  by (simp add: research_def split: loop_exit.splits)

lemma search_reports:
  "searchWithAnthropic_loop create exec w (search_systemPrompt scope) query
     = (exit, n, msgs', w') \<Longrightarrow>
   search False sendMessage create exec w query scope
     = (Inr (case exit of
               Completed t \<Rightarrow> t
             | Thrown err \<Rightarrow> ''Search error: '' @ message err
             | _ \<Rightarrow> ''Search reached maximum iterations''),
        w')"
  "searchWithGemini_loop sendMessage exec w query = (exit, n, sent, w') \<Longrightarrow>
   search True sendMessage create exec w query scope
     = (Inr (case exit of
               Completed t \<Rightarrow> t
             | Thrown err \<Rightarrow> ''Search error: '' @ message err
             | _ \<Rightarrow> ''Search reached maximum iterations''),
        w')"
  by (simp_all add: search_def searchWithAnthropic_def searchWithGemini_def Let_def CONFIG_def
      split: loop_exit.splits)

text \<open>
  C1, as the code has it. Given a provider stub that always emits a tool call, and tools
  that return strings, the loops of the search agent (in either of its protocols), of the
  librarian and of the subagent end by reaching their caps, after exactly 10, 15 and 20
  iterations; \<open>searchWithGemini\<close> has then sent eleven messages, the answer to the last
  of which it does not look at. \<open>search\<close> and \<open>research\<close> return their sentinel strings;
  \<open>spawn\<close> returns \<open>truncateOutput\<close> of its sentinel, which is the sentinel when the
  budget is at least 9 tokens.

  The loops of \<open>searchWithAnthropic\<close>, of the librarian and of the subagent are the one
  block-structured loop \<open>tool_loop\<close>, with the caps 10, 15 and 20 and their own requests.
  With any provider and any tools, a block-structured loop that has been left has run
  some number \<open>k\<close> of turns with tool calls, no more than its cap, and has been left in
  one of three ways: by reaching the cap, after \<open>k = cap\<close> turns and as many iterations;
  in iteration \<open>k + 1\<close> by a response without tool calls; or in iteration \<open>k + 1\<close> by an
  exception of the provider or of a tool. Conversely, after \<open>k\<close> turns with tool calls
  each of the three leaves the loop, the cap without another call of the provider. The
  loop of \<open>searchWithGemini\<close> is left in the same three ways and by a response that has
  no candidate, in whichever iteration it arrives, and each of the four leaves it; an
  exception of the first message leaves \<open>searchWithGemini\<close> before the loop.

  \<open>spawn\<close>, \<open>research\<close> and \<open>search\<close> return according to the way their loop was
  left: for a response without tool calls its text, for an exception \<open>Subagent error:\<close>,
  \<open>Librarian error:\<close> or \<open>Search error:\<close> with its message, and otherwise the
  sentinel; \<open>spawn\<close> passes the text and the sentinel, but not the error, through
  \<open>truncateOutput\<close>, and \<open>spawn\<close> and \<open>research\<close> put \<open>Task completed\<close> and
  \<open>Research completed\<close> in place of an empty text.
\<close>

theorem iteration_caps:
  assumes "always_tool_call create"
    and "always_function_call sendMessage"
    and "executor_returns exec"
  shows
    "(\<exists>msgs w'. searchWithAnthropic_loop create exec w (search_systemPrompt scope) query
                   = (MaxIterations, 10, msgs, w')
                 \<and> search False sendMessage create exec w query scope
                   = (Inr ''Search reached maximum iterations'', w')) \<and>
     (\<exists>w'. searchWithGemini_loop sendMessage exec w query = (MaxIterations, 10, 11, w')
            \<and> search True sendMessage create exec w query scope
              = (Inr ''Search reached maximum iterations'', w')) \<and>
     (\<exists>msgs w'. research_loop create exec w currentYear question library request_type
                   = (MaxIterations, 15, msgs, w')
                 \<and> research create exec w currentYear question library request_type
                   = (Inr ''Librarian reached maximum iterations'', w')) \<and>
     (\<exists>msgs w'. spawn_loop create exec w task workingDirectory maxOutputTokens outputFormat
                   = (MaxIterations, 20, msgs, w')
                 \<and> spawn create exec w task workingDirectory maxOutputTokens outputFormat
                   = (Inr (truncateOutput ''Subagent reached maximum iterations.''
                             maxOutputTokens), w')) \<and>
     (9 \<le> maxOutputTokens \<longrightarrow>
        truncateOutput ''Subagent reached maximum iterations.'' maxOutputTokens
          = ''Subagent reached maximum iterations.'') \<and>
     (\<forall>anyCreate anyExec v.
        searchWithAnthropic_loop anyCreate anyExec v (search_systemPrompt scope) query
          = tool_loop 10 (search_request (search_systemPrompt scope)) anyCreate anyExec v
              [UserText query] 0 \<and>
        research_loop anyCreate anyExec v currentYear question library request_type
          = tool_loop 15
              (librarian_request (librarian_systemPrompt library currentYear request_type))
              anyCreate anyExec v [UserText (librarian_userMessage library question)] 0 \<and>
        spawn_loop anyCreate anyExec v task workingDirectory maxOutputTokens outputFormat
          = tool_loop 20
              (subagent_request
                 (subagent_systemPrompt workingDirectory maxOutputTokens outputFormat))
              anyCreate anyExec v [UserText task] 0) \<and>
     (\<forall>cap request anyCreate anyExec v msgs exit n msgs' v'.
        tool_loop cap request anyCreate anyExec v msgs 0 = (exit, n, msgs', v') \<longrightarrow>
        (\<exists>k u hist.
           tool_turns k request anyCreate anyExec (v, msgs) = Some (u, hist) \<and> k \<le> cap \<and>
           (case exit of
              MaxIterations \<Rightarrow> k = cap \<and> n = cap \<and> msgs' = hist \<and> v' = u
            | Completed t \<Rightarrow>
                n = k + 1 \<and> n \<le> cap \<and>
                (\<exists>response u1. anyCreate u (request hist) = (Inr response, u1)
                   \<and> filter is_tool_use response = []
                   \<and> run_blocks (\<lambda>old new. new) anyExec u1 response [] [] = (Inr ([], t), v')
                   \<and> msgs' = hist @ [AssistantContent response])
            | Thrown err \<Rightarrow>
                n = k + 1 \<and> n \<le> cap \<and>
                (anyCreate u (request hist) = (Inl err, v') \<and> msgs' = hist \<or>
                 (\<exists>response u1. anyCreate u (request hist) = (Inr response, u1)
                    \<and> run_blocks (\<lambda>old new. new) anyExec u1 response [] [] = (Inl err, v')
                    \<and> msgs' = hist @ [AssistantContent response]))
            | NoCandidate \<Rightarrow> False))) \<and>
     (\<forall>cap request anyCreate anyExec v msgs k u hist.
        tool_turns k request anyCreate anyExec (v, msgs) = Some (u, hist) \<and> k \<le> cap \<longrightarrow>
        (k = cap \<longrightarrow>
           tool_loop cap request anyCreate anyExec v msgs 0 = (MaxIterations, cap, hist, u)) \<and>
        (k < cap \<longrightarrow>
           (\<forall>err u1. anyCreate u (request hist) = (Inl err, u1) \<longrightarrow>
              tool_loop cap request anyCreate anyExec v msgs 0 = (Thrown err, k + 1, hist, u1)) \<and>
           (\<forall>response u1 err u2.
              anyCreate u (request hist) = (Inr response, u1)
              \<and> run_blocks (\<lambda>old new. new) anyExec u1 response [] [] = (Inl err, u2) \<longrightarrow>
              tool_loop cap request anyCreate anyExec v msgs 0
                = (Thrown err, k + 1, hist @ [AssistantContent response], u2)) \<and>
           (\<forall>response u1.
              anyCreate u (request hist) = (Inr response, u1)
              \<and> filter is_tool_use response = [] \<longrightarrow>
              (\<exists>t. tool_loop cap request anyCreate anyExec v msgs 0
                     = (Completed t, k + 1, hist @ [AssistantContent response], u1))))) \<and>
     (\<forall>anySend anyExec v exit n sent v'.
        searchWithGemini_loop anySend anyExec v query = (exit, n, sent, v') \<longrightarrow>
        (\<exists>err. anySend v (SendText query) = (Inl err, v') \<and> exit = Thrown err \<and> n = 0 \<and> sent = 1) \<or>
        (\<exists>response v1 k u reply.
           anySend v (SendText query) = (Inr response, v1)
           \<and> gemini_turns k anySend anyExec (v1, response) = Some (u, reply) \<and> k \<le> 10 \<and>
           (case exit of
              MaxIterations \<Rightarrow> k = 10 \<and> n = 10 \<and> sent = 11 \<and> v' = u
            | NoCandidate \<Rightarrow> n = k + 1 \<and> n \<le> 10 \<and> sent = k + 1 \<and> v' = u \<and> reply = None
            | Completed t \<Rightarrow>
                n = k + 1 \<and> n \<le> 10 \<and> sent = k + 1 \<and> v' = u \<and>
                (\<exists>parts. reply = Some parts \<and> filter (\<lambda>p. functionCall p \<noteq> None) parts = []
                   \<and> t = finalText parts)
            | Thrown err \<Rightarrow>
                n = k + 1 \<and> n \<le> 10 \<and>
                (\<exists>parts. reply = Some parts \<and>
                   (run_function_calls anyExec u (filter (\<lambda>p. functionCall p \<noteq> None) parts) []
                      = (Inl err, v') \<and> sent = k + 1 \<or>
                    (\<exists>functionResponses u1.
                       run_function_calls anyExec u
                         (filter (\<lambda>p. functionCall p \<noteq> None) parts) []
                         = (Inr functionResponses, u1)
                       \<and> anySend u1 (SendFunctionResponses functionResponses) = (Inl err, v')
                       \<and> sent = k + 2)))))) \<and>
     (\<forall>anySend anyExec v response v1 k u reply.
        anySend v (SendText query) = (Inr response, v1)
        \<and> gemini_turns k anySend anyExec (v1, response) = Some (u, reply) \<and> k \<le> 10 \<longrightarrow>
        (k = 10 \<longrightarrow>
           searchWithGemini_loop anySend anyExec v query = (MaxIterations, 10, 11, u)) \<and>
        (k < 10 \<longrightarrow>
           (reply = None \<longrightarrow>
              searchWithGemini_loop anySend anyExec v query = (NoCandidate, k + 1, k + 1, u)) \<and>
           (\<forall>parts.
              reply = Some parts \<and> filter (\<lambda>p. functionCall p \<noteq> None) parts = [] \<longrightarrow>
              searchWithGemini_loop anySend anyExec v query
                = (Completed (finalText parts), k + 1, k + 1, u)) \<and>
           (\<forall>parts err u1.
              reply = Some parts
              \<and> run_function_calls anyExec u (filter (\<lambda>p. functionCall p \<noteq> None) parts) []
                = (Inl err, u1) \<longrightarrow>
              searchWithGemini_loop anySend anyExec v query = (Thrown err, k + 1, k + 1, u1)) \<and>
           (\<forall>parts functionResponses u1 err u2.
              reply = Some parts \<and> filter (\<lambda>p. functionCall p \<noteq> None) parts \<noteq> []
              \<and> run_function_calls anyExec u (filter (\<lambda>p. functionCall p \<noteq> None) parts) []
                = (Inr functionResponses, u1)
              \<and> anySend u1 (SendFunctionResponses functionResponses) = (Inl err, u2) \<longrightarrow>
              searchWithGemini_loop anySend anyExec v query
                = (Thrown err, k + 1, k + 2, u2)))) \<and>
     (\<forall>anyCreate anyExec v exit n msgs' v'.
        spawn_loop anyCreate anyExec v task workingDirectory maxOutputTokens outputFormat
          = (exit, n, msgs', v') \<longrightarrow>
        spawn anyCreate anyExec v task workingDirectory maxOutputTokens outputFormat
          = (Inr (case exit of
                    Completed t \<Rightarrow> truncateOutput (or_else t ''Task completed'') maxOutputTokens
                  | Thrown err \<Rightarrow> ''Subagent error: '' @ message err
                  | _ \<Rightarrow> truncateOutput ''Subagent reached maximum iterations.''
                           maxOutputTokens),
             v')) \<and>
     (\<forall>anyCreate anyExec v exit n msgs' v'.
        research_loop anyCreate anyExec v currentYear question library request_type
          = (exit, n, msgs', v') \<longrightarrow>
        research anyCreate anyExec v currentYear question library request_type
          = (Inr (case exit of
                    Completed t \<Rightarrow> or_else t ''Research completed''
                  | Thrown err \<Rightarrow> ''Librarian error: '' @ message err
                  | _ \<Rightarrow> ''Librarian reached maximum iterations''),
             v')) \<and>
     (\<forall>anySend anyCreate anyExec v exit n msgs' v'.
        searchWithAnthropic_loop anyCreate anyExec v (search_systemPrompt scope) query
          = (exit, n, msgs', v') \<longrightarrow>
        search False anySend anyCreate anyExec v query scope
          = (Inr (case exit of
                    Completed t \<Rightarrow> t
                  | Thrown err \<Rightarrow> ''Search error: '' @ message err
                  | _ \<Rightarrow> ''Search reached maximum iterations''),
             v')) \<and>
     (\<forall>anySend anyCreate anyExec v exit n sent v'.
        searchWithGemini_loop anySend anyExec v query = (exit, n, sent, v') \<longrightarrow>
        search True anySend anyCreate anyExec v query scope
          = (Inr (case exit of
                    Completed t \<Rightarrow> t
                  | Thrown err \<Rightarrow> ''Search error: '' @ message err
                  | _ \<Rightarrow> ''Search reached maximum iterations''),
             v'))"
  apply (intro conjI)
  subgoal by (rule search_exhausts(1) [OF assms])
  subgoal by (rule search_exhausts(2) [OF assms])
  subgoal by (rule research_exhausts [OF assms(1,3)])
  subgoal by (rule spawn_exhausts [OF assms(1,3)])
  subgoal by (intro impI) (erule sentinel_within_budget)
  subgoal by (simp add: searchWithAnthropic_loop_def research_loop_def spawn_loop_def)
  subgoal by (intro allI impI) (erule tool_loop_left)
  subgoal by (intro allI impI) (erule tool_loop_leaves)
  subgoal by (intro allI impI) (erule searchWithGemini_left)
  subgoal by (intro allI impI) (erule searchWithGemini_leaves)
  subgoal by (intro allI impI) (erule spawn_reports)
  subgoal by (intro allI impI) (erule research_reports)
  subgoal by (intro allI impI) (erule search_reports(1))
  subgoal by (intro allI impI) (erule search_reports(2))
  done

theorem iteration_caps_witness:
  "always_tool_call stub_provider \<and> always_function_call stub_chat \<and>
   executor_returns stub_executor \<and> (9::int) \<le> 2000 \<and>
   search False stub_chat stub_provider stub_executor () ''where is main'' ''.''
     = (Inr ''Search reached maximum iterations'', ()) \<and>
   search True stub_chat stub_provider stub_executor () ''where is main'' ''.''
     = (Inr ''Search reached maximum iterations'', ()) \<and>
   research stub_provider stub_executor () 2025 ''how is it used'' ''zod'' ''conceptual''
     = (Inr ''Librarian reached maximum iterations'', ()) \<and>
   spawn stub_provider stub_executor () ''list the files'' ''.'' 2000 ''full''
     = (Inr ''Subagent reached maximum iterations.'', ()) \<and>
   fst (snd (spawn_loop stub_provider stub_executor () ''list the files'' ''.'' 2000 ''full'')) = 20 \<and>
   research (failing_provider ''overloaded'') stub_executor () 2025 ''how is it used'' ''zod''
     ''conceptual''
     = (Inr ''Librarian error: overloaded'', ()) \<and>
   gemini_turns 1 fading_chat stub_executor
     ((), Some [\<lparr>part_text = None, functionCall = Some (''list_files'', ())\<rparr>])
     = Some ((), None) \<and>
   searchWithGemini_loop fading_chat stub_executor () ''where is main'' = (NoCandidate, 2, 2, ()) \<and>
   search True fading_chat stub_provider stub_executor () ''where is main'' ''.''
     = (Inr ''Search reached maximum iterations'', ())"
proof -
  note caps = iteration_caps [OF stubs_always, where w = "()" and maxOutputTokens = 2000
      and scope = "''.''" and query = "''where is main''" and question = "''how is it used''"
      and currentYear = 2025 and library = "''zod''" and request_type = "''conceptual''"
      and task = "''list the files''" and workingDirectory = "''.''" and outputFormat = "''full''"]
  note rest = caps [THEN conjunct2, THEN conjunct2, THEN conjunct2, THEN conjunct2, THEN conjunct2,
      THEN conjunct2]
  have anthropic: "search False stub_chat stub_provider stub_executor () ''where is main'' ''.''
      = (Inr ''Search reached maximum iterations'', ())"
    using caps [THEN conjunct1] by auto
  have gemini: "search True stub_chat stub_provider stub_executor () ''where is main'' ''.''
      = (Inr ''Search reached maximum iterations'', ())"
    using caps [THEN conjunct2, THEN conjunct1] by auto
  have librarian: "research stub_provider stub_executor () 2025 ''how is it used'' ''zod''
        ''conceptual'' = (Inr ''Librarian reached maximum iterations'', ())"
    using caps [THEN conjunct2, THEN conjunct2, THEN conjunct1] by auto
  have subagent: "spawn stub_provider stub_executor () ''list the files'' ''.'' 2000 ''full''
        = (Inr (truncateOutput ''Subagent reached maximum iterations.'' 2000), ())
      \<and> fst (snd (spawn_loop stub_provider stub_executor () ''list the files'' ''.'' 2000
            ''full'')) = 20"
    using caps [THEN conjunct2, THEN conjunct2, THEN conjunct2, THEN conjunct1] by auto
  have sentinel: "truncateOutput ''Subagent reached maximum iterations.'' 2000
      = ''Subagent reached maximum iterations.''"
    using caps [THEN conjunct2, THEN conjunct2, THEN conjunct2, THEN conjunct2, THEN conjunct1]
    by simp
  have thrown: "research_loop (failing_provider ''overloaded'') stub_executor () 2025
        ''how is it used'' ''zod'' ''conceptual''
      = (Thrown (new_Error ''overloaded''), 1,
         [UserText (librarian_userMessage ''zod'' ''how is it used'')], ())"
    using rest [THEN conjunct2, THEN conjunct1, rule_format,
        of 0 "librarian_request (librarian_systemPrompt ''zod'' 2025 ''conceptual'')"
          "failing_provider ''overloaded''" stub_executor "()"
          "[UserText (librarian_userMessage ''zod'' ''how is it used'')]" "()"
          "[UserText (librarian_userMessage ''zod'' ''how is it used'')]" 15,
        THEN conjunct2, rule_format, THEN conjunct1, rule_format,
        of "new_Error ''overloaded''" "()"]
    by (simp add: research_loop_def failing_provider_def)
  have reported: "research (failing_provider ''overloaded'') stub_executor () 2025
        ''how is it used'' ''zod'' ''conceptual''
      = (Inr ''Librarian error: overloaded'', ())"
    using rest [THEN conjunct2, THEN conjunct2, THEN conjunct2, THEN conjunct2, THEN conjunct2,
        THEN conjunct1, rule_format, OF thrown]
    by (simp add: new_Error_def)
  have turns: "gemini_turns 1 fading_chat stub_executor
        ((), Some [\<lparr>part_text = None, functionCall = Some (''list_files'', ())\<rparr>])
      = Some ((), None)"
    by (simp add: gemini_turn_def fading_chat_def stub_executor_def)
  have first: "fading_chat () (SendText ''where is main'')
      = (Inr (Some [\<lparr>part_text = None, functionCall = Some (''list_files'', ())\<rparr>]), ())"
    by (simp add: fading_chat_def)
  have "(1::nat) \<le> 10" by simp
  with first turns have "fading_chat () (SendText ''where is main'')
        = (Inr (Some [\<lparr>part_text = None, functionCall = Some (''list_files'', ())\<rparr>]), ())
      \<and> gemini_turns 1 fading_chat stub_executor
          ((), Some [\<lparr>part_text = None, functionCall = Some (''list_files'', ())\<rparr>])
        = Some ((), None)
      \<and> (1::nat) \<le> 10"
    by blast
  from rest [THEN conjunct2, THEN conjunct2, THEN conjunct2, THEN conjunct1, rule_format, OF this]
  have fading_loop: "searchWithGemini_loop fading_chat stub_executor () ''where is main''
      = (NoCandidate, 2, 2, ())"
    by simp
  from rest [THEN conjunct2, THEN conjunct2, THEN conjunct2, THEN conjunct2, THEN conjunct2,
      THEN conjunct2, THEN conjunct2, rule_format, OF fading_loop, of stub_provider]
  have "search True fading_chat stub_provider stub_executor () ''where is main'' ''.''
      = (Inr ''Search reached maximum iterations'', ())"
    by simp
  with fading_loop
  have fading: "searchWithGemini_loop fading_chat stub_executor () ''where is main''
        = (NoCandidate, 2, 2, ())
      \<and> search True fading_chat stub_provider stub_executor () ''where is main'' ''.''
        = (Inr ''Search reached maximum iterations'', ())"
    by simp
  from anthropic gemini librarian subagent sentinel reported turns fading stubs_always
  show ?thesis by simp
qed

text \<open>
  C1 has the subagent return its sentinel string, and no way out of a loop other than a
  turn without tool calls or the cap. With a budget of one token the subagent that
  reaches its cap returns a truncation marker in place of the sentinel; and a provider
  that throws ends the loop of the subagent in its first iteration.
\<close>

theorem iteration_caps_counterexample:
  "spawn stub_provider stub_executor () ''list the files'' ''.'' 1 ''full''
     = (Inr (nl @ nl @ ''... [TRUNCATED - 32 chars removed] ...'' @ nl @ nl), ()) \<and>
   nl @ nl @ ''... [TRUNCATED - 32 chars removed] ...'' @ nl @ nl
     \<noteq> ''Subagent reached maximum iterations.'' \<and>
   spawn_loop (failing_provider ''overloaded'') stub_executor () ''list the files'' ''.'' 2000 ''full''
     = (Thrown (new_Error ''overloaded''), 1, [UserText ''list the files''], ()) \<and>
   spawn (failing_provider ''overloaded'') stub_executor () ''list the files'' ''.'' 2000 ''full''
     = (Inr ''Subagent error: overloaded'', ())"
proof -
  have "truncateOutput ''Subagent reached maximum iterations.'' 1
          = nl @ nl @ ''... [TRUNCATED - 32 chars removed] ...'' @ nl @ nl"
    by (simp add: truncateOutput_def substring_def substring_from_def Let_def show_int_def
        show_nat.simps)
  with spawn_exhausts [OF stubs_always(1,3), of "()" "''list the files''" "''.''" 1 "''full''"]
  have "spawn stub_provider stub_executor () ''list the files'' ''.'' 1 ''full''
          = (Inr (nl @ nl @ ''... [TRUNCATED - 32 chars removed] ...'' @ nl @ nl), ())"
    by auto
  then show ?thesis
    using spawn_thrown [of "''overloaded''" stub_executor "()" "''list the files''" "''.''" 2000
        "''full''"]
    by (simp add: nl_def)
qed

text \<open>
  C3 at an input where the provider throws: \<open>spawn\<close> returns \<open>Subagent error:\<close> with the
  message of the exception, which has not passed through \<open>truncateOutput\<close>. With a
  message of 400 characters and a budget of 10 tokens the string returned has 416
  characters, \<open>truncateOutput\<close> would have changed it, and it is longer than \<open>4 * 10\<close>
  plus the marker.
\<close>

theorem spawn_error_not_budgeted:
  "spawn (failing_provider (replicate 400 CHR ''x'')) stub_executor () ''list the files'' ''.'' 10
     ''full''
     = (Inr (''Subagent error: '' @ replicate 400 CHR ''x''), ()) \<and>
   truncateOutput (''Subagent error: '' @ replicate 400 CHR ''x'') 10
     \<noteq> ''Subagent error: '' @ replicate 400 CHR ''x'' \<and>
   4 * 10 + int (length (marker (int (length (''Subagent error: '' @ replicate 400 CHR ''x''))
                                  - 4 * 10)))
     < int (length (''Subagent error: '' @ replicate 400 CHR ''x''))"
proof -
  have long: "4 * 10 + int (length (marker (int (length (''Subagent error: ''
        @ replicate 400 CHR ''x'')) - 4 * 10)))
      < int (length (''Subagent error: '' @ replicate 400 CHR ''x''))"
    by (simp add: marker_def nl_def show_int_def show_nat.simps)
  have "int (length (truncateOutput (''Subagent error: '' @ replicate 400 CHR ''x'') 10))
      \<le> 4 * 10 + int (length (marker (int (length (''Subagent error: ''
            @ replicate 400 CHR ''x'')) - 4 * 10)))"
    by (rule truncateOutput_length_le) simp
  with long have "truncateOutput (''Subagent error: '' @ replicate 400 CHR ''x'') 10
      \<noteq> ''Subagent error: '' @ replicate 400 CHR ''x''"
    by (metis not_less)
  with long show ?thesis
    using spawn_thrown(2) [of "replicate 400 CHR ''x''" stub_executor "()" "''list the files''"
        "''.''" 10 "''full''"]
    by blast
qed

section \<open>Properties of the oracle\<close>

lemma readOnlyTools_names:
  "map name readOnlyTools = [''read_file'', ''list_files'', ''code_search'']"
  by (simp add: readOnlyTools_def readFileTool_def listFilesTool_def codeSearchTool_def)

lemma toOpenAITools_names: "map function_name (toOpenAITools ts) = map name ts"
  by (simp add: toOpenAITools_def comp_def)

lemma read_only_names_disjoint:
  "set [''read_file'', ''list_files'', ''code_search'']
     \<inter> (set [''edit_file'', ''bash''] \<union> set metaToolNames) = {}"
  by (simp add: metaToolNames_def)

lemma consultAnthropic_loop_requests:
  "\<forall>r \<in> set made. tools r = readOnlyTools \<Longrightarrow>
   \<forall>r \<in> set (fst (snd (consultAnthropic_loop fuel create exec w systemPrompt msgs made))).
     tools r = readOnlyTools"
proof (induction fuel arbitrary: w msgs made)
  case 0
  then show ?case by simp
next
  case (Suc fuel)
  have extended: "\<forall>r \<in> set (made @ [oracle_request systemPrompt msgs]). tools r = readOnlyTools"
    using Suc.prems by (simp add: oracle_request_def)
  show ?case
    using extended Suc.IH [OF extended]
    by (simp add: Let_def split: prod.splits sum.splits)
qed

lemma consultOpenAI_loop_requests:
  "\<forall>r \<in> set made. openai_tools r = toOpenAITools readOnlyTools \<Longrightarrow>
   \<forall>r \<in> set (fst (snd (consultOpenAI_loop fuel parse create exec w msgs made))).
     openai_tools r = toOpenAITools readOnlyTools"
proof (induction fuel arbitrary: w msgs made)
  case 0
  then show ?case by simp
next
  case (Suc fuel)
  have extended:
    "\<forall>r \<in> set (made @ [\<lparr>openai_model = oracleModel CONFIG, openai_messages = msgs,
                            openai_tools = toOpenAITools readOnlyTools\<rparr>]).
       openai_tools r = toOpenAITools readOnlyTools"
    using Suc.prems by simp
  show ?case
    using extended Suc.IH [OF extended]
    by (simp add: Let_def split: prod.splits sum.splits list.splits option.splits)
qed

text \<open>
  C9. In every request that the oracle makes, in either of its two protocols and however
  long it runs, the names of the tools advertised are exactly \<open>read_file\<close>,
  \<open>list_files\<close> and \<open>code_search\<close>: never \<open>edit_file\<close>, \<open>bash\<close> or the name of a
  meta-tool, and the same in the first request as in every later one.
\<close>

theorem oracle_tools_read_only:
  "(\<forall>r \<in> set (fst (snd (consultAnthropic fuel create exec w systemPrompt userMessage))).
      map name (tools r) = [''read_file'', ''list_files'', ''code_search''] \<and>
      set (map name (tools r)) \<inter> (set [''edit_file'', ''bash''] \<union> set metaToolNames) = {}) \<and>
   (\<forall>r \<in> set (fst (snd (consultOpenAI fuel openaiClient parse createOpenAI exec w systemPrompt
                            userMessage))).
      map function_name (openai_tools r) = [''read_file'', ''list_files'', ''code_search''] \<and>
      set (map function_name (openai_tools r))
        \<inter> (set [''edit_file'', ''bash''] \<union> set metaToolNames) = {})"
proof (intro conjI ballI)
  fix r
  assume "r \<in> set (fst (snd (consultAnthropic fuel create exec w systemPrompt userMessage)))"
  with consultAnthropic_loop_requests [of "[]" fuel create exec w systemPrompt
      "[UserText userMessage]"]
  have "tools r = readOnlyTools" by (simp add: consultAnthropic_def)
  then show "map name (tools r) = [''read_file'', ''list_files'', ''code_search'']"
    and "set (map name (tools r)) \<inter> (set [''edit_file'', ''bash''] \<union> set metaToolNames) = {}"
    using read_only_names_disjoint by (simp_all only: readOnlyTools_names)
next
  fix r
  assume made: "r \<in> set (fst (snd (consultOpenAI fuel openaiClient parse createOpenAI exec w
      systemPrompt userMessage)))"
  then have openaiClient by (cases openaiClient) (simp_all add: consultOpenAI_def)
  with made consultOpenAI_loop_requests [of "[]" fuel parse createOpenAI exec w
      "[SystemParam systemPrompt, UserParam userMessage]"]
  have "openai_tools r = toOpenAITools readOnlyTools" by (simp add: consultOpenAI_def)
  then show "map function_name (openai_tools r) = [''read_file'', ''list_files'', ''code_search'']"
    and "set (map function_name (openai_tools r))
           \<inter> (set [''edit_file'', ''bash''] \<union> set metaToolNames) = {}"
    using read_only_names_disjoint by (simp_all only: toOpenAITools_names readOnlyTools_names)
qed

lemma answering_runs:
  "consultAnthropic_loop 5 answering_provider stub_executor () oracle_systemPrompt [UserText ''why''] []
     = (Some (Inr ''Done.''),
        [oracle_request oracle_systemPrompt [UserText ''why''],
         oracle_request oracle_systemPrompt
           [UserText ''why'', AssistantContent [ToolUseBlock ''toolu_1'' ''read_file'' ()],
            UserToolResults [\<lparr>tool_use_id = ''toolu_1'', content = ''src/''\<rparr>]]],
        [UserText ''why'', AssistantContent [ToolUseBlock ''toolu_1'' ''read_file'' ()],
         UserToolResults [\<lparr>tool_use_id = ''toolu_1'', content = ''src/''\<rparr>],
         AssistantContent [TextBlock ''Done.'']],
        ())"
  by (simp add: eval_nat_numeral answering_provider_def stub_executor_def oracle_request_def
      Let_def)

lemma answering_openai_runs:
  "fst (consultOpenAI_loop 5 strict_parse answering_openai stub_executor ()
          [SystemParam oracle_systemPrompt, UserParam ''why''] []) = Some (Inr ''Done.'') \<and>
   length (fst (snd (consultOpenAI_loop 5 strict_parse answering_openai stub_executor ()
          [SystemParam oracle_systemPrompt, UserParam ''why''] []))) = 2"
  by (simp add: eval_nat_numeral answering_openai_def stub_executor_def strict_parse_def
      has_tool_calls_def the_tool_calls_def or_else_opt_def or_else_def Let_def)

theorem oracle_tools_read_only_witness:
  "fst (consultAnthropic 5 answering_provider stub_executor () oracle_systemPrompt ''why'')
     = Some (Inr ''Done.'') \<and>
   length (fst (snd (consultAnthropic 5 answering_provider stub_executor () oracle_systemPrompt
          ''why''))) = 2 \<and>
   map name (tools (fst (snd (consultAnthropic 5 answering_provider stub_executor ()
          oracle_systemPrompt ''why'')) ! 1))
     = [''read_file'', ''list_files'', ''code_search''] \<and>
   length (fst (snd (consultOpenAI 5 True strict_parse answering_openai stub_executor ()
          oracle_systemPrompt ''why''))) = 2 \<and>
   map function_name (openai_tools (fst (snd (consultOpenAI 5 True strict_parse answering_openai
          stub_executor () oracle_systemPrompt ''why'')) ! 1))
     = [''read_file'', ''list_files'', ''code_search'']"
proof -
  let ?made = "fst (snd (consultAnthropic 5 answering_provider stub_executor ()
                 oracle_systemPrompt ''why''))"
  let ?sent = "fst (snd (consultOpenAI 5 True strict_parse answering_openai stub_executor ()
                 oracle_systemPrompt ''why''))"
  have made: "length ?made = 2" and answer: "fst (consultAnthropic 5 answering_provider
      stub_executor () oracle_systemPrompt ''why'') = Some (Inr ''Done.'')"
    by (simp_all add: consultAnthropic_def answering_runs)
  have sent: "length ?sent = 2" using answering_openai_runs by (simp add: consultOpenAI_def)
  from made have "?made ! 1 \<in> set ?made" by simp
  moreover from sent have "?sent ! 1 \<in> set ?sent" by simp
  ultimately show ?thesis
    using oracle_tools_read_only [of 5 answering_provider stub_executor "()" oracle_systemPrompt
        "''why''" True strict_parse answering_openai] made sent answer
    by blast
qed

section \<open>Malformed tool calls\<close>








end
